theory Spec2Isabelle
  imports Main "HOL-Library.Word"
begin

unbundle bit_operations_syntax

section \<open>Machine types\<close>

text \<open>
  Bytes are 8-bit words. The counters of \<open>MessageOut\<close> are \<open>uint32_t\<close>, so they are
  32-bit words and their additions wrap. \<open>size_t\<close> and \<open>MessageNo\<close> are taken as 64 bits
  wide. Buffer lengths that the code never lets overflow are natural numbers; a cast
  \<open>(uint32_t)n\<close> of such a length is \<open>of_nat n\<close>.
\<close>

type_synonym byte = "8 word"
type_synonym uint32 = "32 word"
type_synonym uint64 = "64 word"
type_synonym size_t = "64 word"

section \<open>Protocol constants\<close>

text \<open>
  Modelled from the spec: \<open>BLIPProtocol.hh\<close> (the declarations of \<open>FrameFlags\<close> and
  \<open>MessageType\<close>) is not among the sources. The spec's data model gives the layout: the
  low 3 bits of the flags are the type, bit 3 is \<open>MoreComing\<close>, bit 4 \<open>Urgent\<close>,
  bit 5 \<open>NoReply\<close>, bit 6 \<open>Compressed\<close>; the types are \<open>Request = 0\<close>,
  \<open>Response = 1\<close>, \<open>Error = 2\<close>, \<open>AckRequest = 4\<close>, \<open>AckResponse = 5\<close>.
\<close>

type_synonym FrameFlags = "8 word"
type_synonym MessageType = "8 word"

definition kTypeMask :: FrameFlags where "kTypeMask = 0x07"
definition kMoreComing :: FrameFlags where "kMoreComing = 0x08"
definition kUrgent :: FrameFlags where "kUrgent = 0x10"
definition kNoReply :: FrameFlags where "kNoReply = 0x20"
definition kCompressed :: FrameFlags where "kCompressed = 0x40"

definition kRequestType :: MessageType where "kRequestType = 0"
definition kResponseType :: MessageType where "kResponseType = 1"
definition kErrorType :: MessageType where "kErrorType = 2"
definition kAckRequestType :: MessageType where "kAckRequestType = 4"
definition kAckResponseType :: MessageType where "kAckResponseType = 5"

text \<open>
  Modelled from the spec: \<open>Codec.hh\<close> is not among the sources; the spec fixes the
  checksum at 4 bytes.
\<close>

definition kChecksumSize :: nat where "kChecksumSize = 4"

section \<open>Message.hh: the base class\<close>

datatype State =
  kQueued | kSending | kAwaitingReply | kReceivingReply | kComplete | kDisconnected

text \<open>
  A \<open>MessageProgress\<close> value: the state, \<open>bytesSent\<close> and \<open>bytesReceived\<close>. The
  \<open>reply\<close> field is left out: every call modelled here passes \<open>nullptr\<close>.
\<close>

datatype MessageProgress = Progress State uint64 uint64

record Message =
  flags :: FrameFlags
  number :: uint64

definition hasFlag :: "'a Message_scheme \<Rightarrow> FrameFlags \<Rightarrow> bool" where
  "hasFlag m f = (flags m AND f \<noteq> 0)"

definition type :: "'a Message_scheme \<Rightarrow> MessageType" where
  "type m = flags m AND kTypeMask"

definition isAck :: "'a Message_scheme \<Rightarrow> bool" where
  "isAck m = (type m = kAckRequestType \<or> type m = kAckResponseType)"

definition noReply :: "'a Message_scheme \<Rightarrow> bool" where
  "noReply m = hasFlag m kNoReply"

text \<open>
  Modelled from the spec: \<open>Message::sendProgress\<close> and \<open>Message::disconnected\<close> are only
  declared in \<open>Message.hh\<close>; their bodies (\<open>Message.cc\<close>) are not among the sources.
  By the spec, \<open>sendProgress\<close> hands a \<open>MessageProgress\<close> to the message's progress callback,
  and on disconnect the callback is invoked with state \<open>Disconnected\<close>. The model records
  every invocation of the callback as one element of a list.
\<close>

definition sendProgress :: "State \<Rightarrow> uint64 \<Rightarrow> uint64 \<Rightarrow> MessageProgress list" where
  "sendProgress st sent received = [Progress st sent received]"

definition Message_disconnected :: "MessageProgress list" where
  "Message_disconnected = sendProgress kDisconnected 0 0"

section \<open>MessageOut.cc: the contents of an outgoing message\<close>

definition kDataBufferSize :: nat where "kDataBufferSize = 16384"

text \<open>
  A data source is a callback \<open>int(void* buf, size_t capacity)\<close> with hidden state. One
  call either copies some bytes into the buffer and returns their number (\<open>Wrote\<close>), or
  returns a negative number (\<open>Failed\<close>). The callback is modelled by the stream of its
  answers: \<open>src k capacity\<close> is the answer to the call after \<open>k\<close> earlier ones, and
  after a call the remaining source is \<open>\<lambda>k. src (Suc k)\<close>.
\<close>

datatype SourceResult = Wrote "byte list" | Failed int

type_synonym MessageDataSource = "nat \<Rightarrow> nat \<Rightarrow> SourceResult"

text \<open>
  \<open>payload\<close> is \<open>_payload\<close> (empty after \<open>reset()\<close>), \<open>unsentPayload\<close> the part of it
  not yet sent, \<open>dataBuffer\<close> the capacity of \<open>_dataBuffer\<close> when it is allocated,
  \<open>unsentDataBuffer\<close> the bytes of it not yet sent, \<open>dataSource\<close> the callback
  (\<open>None\<close> is \<open>nullptr\<close>).
\<close>

record Contents =
  payload :: "byte list"
  unsentPayload :: "byte list"
  dataSource :: "MessageDataSource option"
  dataBuffer :: "nat option"
  unsentDataBuffer :: "byte list"

definition newContents :: "byte list \<Rightarrow> MessageDataSource option \<Rightarrow> Contents" where
  "newContents p src =
     \<lparr>payload = p, unsentPayload = p, dataSource = src,
      dataBuffer = None, unsentDataBuffer = []\<rparr>"

text \<open>
  \<open>readFromDataSource\<close>. The result is \<open>None\<close> where the C++ has no defined behaviour:
  when there is no callback to call, when the callback reports more bytes than the buffer
  holds, and when it returns a negative number (\<open>bytesWritten\<close> is then converted to
  \<open>size_t\<close> both in the comparison with \<open>_dataBuffer.size\<close> and in \<open>upTo\<close>, which
  yields a slice beyond the buffer).
\<close>

definition readFromDataSource :: "Contents \<Rightarrow> Contents option" where
  "readFromDataSource c =
     (case dataSource c of
        None \<Rightarrow> None
      | Some src \<Rightarrow>
          let cap = (case dataBuffer c of None \<Rightarrow> kDataBufferSize | Some n \<Rightarrow> n) in
          (case src 0 cap of
             Failed r \<Rightarrow> None
           | Wrote bs \<Rightarrow>
               if length bs > cap then None
               else Some (c\<lparr>dataBuffer := Some cap,
                            unsentDataBuffer := bs,
                            dataSource := (if length bs < cap then None
                                           else Some (\<lambda>k. src (Suc k)))\<rparr>)))"

text \<open>
  \<open>dataToSend\<close> returns a reference to one of the two slices of the contents; the model
  returns which one (\<open>True\<close> for \<open>_unsentPayload\<close>, \<open>False\<close> for
  \<open>_unsentDataBuffer\<close>) together with the updated contents.
\<close>

definition dataToSend :: "Contents \<Rightarrow> (bool \<times> Contents) option" where
  "dataToSend c =
     (if unsentPayload c \<noteq> [] then Some (True, c)
      else
        let c1 = c\<lparr>payload := []\<rparr> in
        if unsentDataBuffer c1 = [] \<and> dataSource c1 \<noteq> None then
          (case readFromDataSource c1 of
             None \<Rightarrow> None
           | Some c2 \<Rightarrow>
               Some (False, if unsentDataBuffer c2 = [] then c2\<lparr>dataBuffer := None\<rparr> else c2))
        else Some (False, c1))"

definition sliceOf :: "bool \<Rightarrow> Contents \<Rightarrow> byte list" where
  "sliceOf w c = (if w then unsentPayload c else unsentDataBuffer c)"

text \<open>The codec reads \<open>n\<close> bytes from the slice it was given, which moves its start.\<close>

definition consume :: "bool \<Rightarrow> nat \<Rightarrow> Contents \<Rightarrow> Contents" where
  "consume w n c =
     (if w then c\<lparr>unsentPayload := drop n (unsentPayload c)\<rparr>
      else c\<lparr>unsentDataBuffer := drop n (unsentDataBuffer c)\<rparr>)"

definition hasMoreDataToSend :: "Contents \<Rightarrow> bool" where
  "hasMoreDataToSend c =
     (unsentPayload c \<noteq> [] \<or> unsentDataBuffer c \<noteq> [] \<or> dataSource c \<noteq> None)"

section \<open>The destination slice and the codec\<close>

text \<open>
  \<open>dst\<close> is a slice of the frame buffer: \<open>before\<close> holds the bytes of the buffer in
  front of \<open>dst.buf\<close>, \<open>dsize\<close> is \<open>dst.size\<close>. Writing moves the start forward.
\<close>

record Dst =
  before :: "byte list"
  dsize :: nat

definition setSize :: "nat \<Rightarrow> Dst \<Rightarrow> Dst" where
  "setSize n d = d\<lparr>dsize := n\<rparr>"

definition put :: "byte list \<Rightarrow> Dst \<Rightarrow> Dst" where
  "put bs d = d\<lparr>before := before d @ bs, dsize := dsize d - length bs\<rparr>"

text \<open>\<open>moveStart(-k)\<close>: the start moves back over the last \<open>k\<close> bytes written.\<close>

definition moveStartBack :: "nat \<Rightarrow> Dst \<Rightarrow> Dst" where
  "moveStartBack k d =
     d\<lparr>before := take (length (before d) - k) (before d), dsize := dsize d + k\<rparr>"

text \<open>
  Modelled from the spec: \<open>slice::writeFrom\<close> belongs to the Fleece library; the spec
  says the ack body is copied into \<open>dst\<close>. A source that does not fit is not copied.
\<close>

definition writeFrom :: "Dst \<Rightarrow> byte list \<Rightarrow> Dst" where
  "writeFrom d src = (if length src \<le> dsize d then put src d else d)"

datatype Mode = Raw | SyncFlush

text \<open>
  \<open>Codec.hh\<close> and \<open>Codec.cc\<close> are not among the sources, so the codec is a parameter:
  a state of any type \<open>'c\<close> and three operations on it.
  \<open>codec_write c data room mode\<close> is \<open>codec.write(data, dst, mode)\<close> with \<open>room\<close>
  the size of \<open>dst\<close>: it returns the bytes written to \<open>dst\<close>, the number of bytes
  read from \<open>data\<close>, and the new state. \<open>codec_checksum\<close> is the running checksum that
  \<open>writeChecksum\<close> writes, big-endian.
\<close>

record 'c Codec =
  codec_write :: "'c \<Rightarrow> byte list \<Rightarrow> nat \<Rightarrow> Mode \<Rightarrow> byte list \<times> nat \<times> 'c"
  codec_unflushedBytes :: "'c \<Rightarrow> nat"
  codec_checksum :: "'c \<Rightarrow> uint32"

definition enc32 :: "uint32 \<Rightarrow> byte list" where
  "enc32 w = [ucast (drop_bit 24 w), ucast (drop_bit 16 w), ucast (drop_bit 8 w), ucast w]"

definition writeChecksum :: "'c Codec \<Rightarrow> 'c \<Rightarrow> Dst \<Rightarrow> Dst" where
  "writeChecksum ops c d = put (enc32 (codec_checksum ops c)) d"

text \<open>The four bytes that end every sync-flush deflate output.\<close>

definition syncFlushTrailer :: "byte list" where
  "syncFlushTrailer = [0x00, 0x00, 0xFF, 0xFF]"

section \<open>MessageOut.cc: the outgoing message\<close>

record MessageOut = Message +
  contents :: Contents
  uncompressedBytesSent :: uint32
  bytesSent :: uint32
  unackedBytes :: uint32

definition newMessageOut ::
  "FrameFlags \<Rightarrow> byte list \<Rightarrow> MessageDataSource option \<Rightarrow> uint64 \<Rightarrow> MessageOut" where
  "newMessageOut f p src n =
     \<lparr>flags = f, number = n, contents = newContents p src,
      uncompressedBytesSent = 0, bytesSent = 0, unackedBytes = 0\<rparr>"

text \<open>
  What a call can end in other than a normal return: the \<open>runtime_error\<close> thrown at
  unflushed compressed bytes, the failure of the \<open>Assert\<close> on the sync-flush trailer, and
  \<open>Undefined\<close> where the C++ leaves the defined behaviour (a destination shorter than the
  checksum, a data source or a codec that oversteps a buffer).
\<close>

datatype error = CompressionBufferOverflow | AssertionFailed | Undefined

text \<open>
  One pass through the body of the \<open>do ... while (dst.size >= 1024)\<close> loop of
  \<open>nextFrameToSend\<close>: either the loop is left (\<open>Stop\<close>: by the \<open>break\<close>, by the
  loop condition, or in undefined behaviour), or the body runs once more (\<open>Again\<close>).
  The two statements around \<open>codec.write\<close> add the size of \<open>data\<close> before the call
  and subtract its size after the call.
\<close>

datatype 'c Step = Stop "error + 'c \<times> MessageOut \<times> Dst" | Again 'c MessageOut Dst

definition frameStep :: "'c Codec \<Rightarrow> Mode \<Rightarrow> 'c \<Rightarrow> MessageOut \<Rightarrow> Dst \<Rightarrow> 'c Step" where
  "frameStep ops mode c m dst =
     (case dataToSend (contents m) of
        None \<Rightarrow> Stop (Inl Undefined)
      | Some (w, c1) \<Rightarrow>
          let data = sliceOf w c1 in
          if data = [] then Stop (Inr (c, m\<lparr>contents := c1\<rparr>, dst))
          else
            (case codec_write ops c data (dsize dst) mode of
               (out, n, c') \<Rightarrow>
                 if length out > dsize dst \<or> n > length data then Stop (Inl Undefined)
                 else
                   let m' = m\<lparr>contents := consume w n c1,
                               uncompressedBytesSent :=
                                 uncompressedBytesSent m + of_nat (length data)
                                   - of_nat (length data - n)\<rparr>;
                       dst' = put out dst
                   in if dsize dst' \<ge> 1024 then Again c' m' dst'
                      else Stop (Inr (c', m', dst'))))"

text \<open>
  The loop itself. It need not terminate for every codec, so it returns an option and
  \<open>None\<close> stands for a loop that runs forever.
\<close>

partial_function (option) writeFrame ::
  "'c Codec \<Rightarrow> Mode \<Rightarrow> 'c \<Rightarrow> MessageOut \<Rightarrow> Dst \<Rightarrow> (error + 'c \<times> MessageOut \<times> Dst) option"
where
  "writeFrame ops mode c m dst =
     (case frameStep ops mode c m dst of
        Stop r \<Rightarrow> Some r
      | Again c' m' dst' \<Rightarrow> writeFrame ops mode c' m' dst')"

definition nextFrameToSend ::
  "'c Codec \<Rightarrow> 'c \<Rightarrow> MessageOut \<Rightarrow> Dst
     \<Rightarrow> (error + 'c \<times> MessageOut \<times> Dst \<times> FrameFlags \<times> MessageProgress list) option"
where
  "nextFrameToSend ops c m dst =
     (if isAck m then
        (case dataToSend (contents m) of
           None \<Rightarrow> Some (Inl Undefined)
         | Some (w, c1) \<Rightarrow>
             let data = sliceOf w c1 in
             Some (Inr (c,
                        m\<lparr>contents := c1, bytesSent := bytesSent m + of_nat (length data)\<rparr>,
                        writeFrom dst data, flags m, [])))
      else if dsize dst < kChecksumSize then Some (Inl Undefined)
      else
        let frameSize = dsize dst;
            dst1 = setSize (dsize dst - kChecksumSize) dst;
            mode = (if hasFlag m kCompressed then SyncFlush else Raw)
        in
        (case writeFrame ops mode c m dst1 of
           None \<Rightarrow> None
         | Some (Inl e) \<Rightarrow> Some (Inl e)
         | Some (Inr (c', m1, dst2)) \<Rightarrow>
             if codec_unflushedBytes ops c' > 0 then Some (Inl CompressionBufferOverflow)
             else
               let bytesWritten = (frameSize - kChecksumSize) - dsize dst2;
                   strip = (mode = SyncFlush \<and> bytesWritten > 0)
               in
               if strip \<and> \<not> (bytesWritten \<ge> 4 \<and>
                    drop (length (before dst2) - 4) (before dst2) = syncFlushTrailer)
               then Some (Inl AssertionFailed)
               else
                 let dst3 = (if strip then moveStartBack 4 dst2 else dst2);
                     dst4 = setSize (dsize dst3 + kChecksumSize) dst3;
                     dst5 = writeChecksum ops c' dst4;
                     frameSize' = frameSize - dsize dst5;
                     m2 = m1\<lparr>bytesSent := bytesSent m1 + of_nat frameSize',
                              unackedBytes := unackedBytes m1 + of_nat frameSize'\<rparr>;
                     more = hasMoreDataToSend (contents m2);
                     outFlags = (if more then flags m OR kMoreComing else flags m);
                     state = (if more then kSending
                              else if noReply m then kComplete else kAwaitingReply)
                 in Some (Inr (c', m2, dst5, outFlags,
                               sendProgress state (ucast (uncompressedBytesSent m2)) 0))))"

definition receivedAck :: "uint32 \<Rightarrow> MessageOut \<Rightarrow> MessageOut" where
  "receivedAck byteCount m =
     (if byteCount \<le> bytesSent m
      then m\<lparr>unackedBytes := min (unackedBytes m) (bytesSent m - byteCount)\<rparr>
      else m)"

definition disconnected :: "MessageOut \<Rightarrow> MessageProgress list" where
  "disconnected m =
     (if type m \<noteq> kRequestType \<or> noReply m then [] else Message_disconnected)"

text \<open>
  A sequence of calls on one message. \<open>NextFrame n\<close> is \<open>nextFrameToSend\<close> with a fresh
  buffer of \<open>n\<close> bytes as \<open>dst\<close>; the bytes written to it are the frame. \<open>run\<close>
  returns the codec, the message and the frames after the last call. An exception ends
  the sequence.
\<close>

datatype Call = NextFrame nat | ReceivedAck uint32

fun run ::
  "'c Codec \<Rightarrow> 'c \<Rightarrow> MessageOut \<Rightarrow> Call list
     \<Rightarrow> (error + 'c \<times> MessageOut \<times> byte list list) option"
where
  "run ops c m [] = Some (Inr (c, m, []))"
| "run ops c m (ReceivedAck n # cs) = run ops c (receivedAck n m) cs"
| "run ops c m (NextFrame n # cs) =
     (case nextFrameToSend ops c m \<lparr>before = [], dsize = n\<rparr> of
        None \<Rightarrow> None
      | Some (Inl e) \<Rightarrow> Some (Inl e)
      | Some (Inr (c', m', dst', fl, ev)) \<Rightarrow>
          (case run ops c' m' cs of
             Some (Inr (c'', m'', frames)) \<Rightarrow> Some (Inr (c'', m'', before dst' # frames))
           | r \<Rightarrow> r))"

text \<open>
  What the loop needs of a codec to terminate: a call with input and at least 1024 bytes
  of room writes something. Pass-through copying and sync-flush deflate both do.
\<close>

definition codec_progress :: "'c Codec \<Rightarrow> bool" where
  "codec_progress ops =
     (\<forall>c data room mode. data \<noteq> [] \<and> 1024 \<le> room \<longrightarrow>
        fst (codec_write ops c data room mode) \<noteq> [])"

text \<open>
  Modelled from the spec: a codec for concrete runs. In \<open>Raw\<close> mode it passes the input
  through, as much as fits. In \<open>SyncFlush\<close> mode it stands in for the deflater: it
  passes the input through and ends the output with the sync-flush trailer; what does not
  fit stays unflushed. The state is the number of unflushed bytes; the checksum is not
  computed.
\<close>

definition testCodec :: "nat Codec" where
  "testCodec =
     \<lparr>codec_write = (\<lambda>c data room mode.
        case mode of
          Raw \<Rightarrow> (take room data, min room (length data), 0)
        | SyncFlush \<Rightarrow>
            (take room (data @ syncFlushTrailer), length data,
             length data + 4 - min room (length data + 4))),
      codec_unflushedBytes = (\<lambda>c. c),
      codec_checksum = (\<lambda>c. 0)\<rparr>"

section \<open>LoopbackProvider.hh: the loopback WebSocket\<close>

definition kSendBufferSize :: size_t where
  "kSendBufferSize = 32 * 1024"

text \<open>
  \<open>LoopbackWebSocket\<close> derives from \<open>MockWebSocket\<close>, whose header is not among the
  sources: the inherited part of the object is a component \<open>base\<close> of any type, and the
  inherited methods that \<open>send\<close> and \<open>_ack\<close> call (\<open>MockWebSocket::send\<close> and
  \<open>connected()\<close>) are parameters. \<open>bufferedBytes\<close> is the \<open>size_t\<close> counter
  \<open>_bufferedBytes\<close>.
\<close>

record 'b LoopbackWebSocket =
  base :: 'b
  bufferedBytes :: size_t

definition send ::
  "('b \<Rightarrow> byte list \<Rightarrow> bool \<Rightarrow> 'b) \<Rightarrow> 'b LoopbackWebSocket \<Rightarrow> byte list \<Rightarrow> bool
     \<Rightarrow> 'b LoopbackWebSocket \<times> bool"
where
  "send mockSend ws msg binary =
     (let newValue = bufferedBytes ws + of_nat (length msg);
          ws1 = ws\<lparr>bufferedBytes := newValue\<rparr>;
          ws2 = ws1\<lparr>base := mockSend (base ws1) msg binary\<rparr>
      in (ws2, newValue \<le> kSendBufferSize))"

datatype DelegateCall = onWebSocketWriteable

text \<open>The method \<open>_ack\<close>, with the calls it makes on the delegate.\<close>

definition ack_impl ::
  "('b \<Rightarrow> bool) \<Rightarrow> 'b LoopbackWebSocket \<Rightarrow> size_t
     \<Rightarrow> 'b LoopbackWebSocket \<times> DelegateCall list"
where
  "ack_impl connected ws msgSize =
     (if \<not> connected (base ws) then (ws, [])
      else
        let newValue = bufferedBytes ws - msgSize;
            ws1 = ws\<lparr>bufferedBytes := newValue\<rparr>
        in (ws1,
            if newValue \<le> kSendBufferSize \<and> newValue + msgSize > kSendBufferSize
            then [onWebSocketWriteable] else []))"

section \<open>ChannelManifest.hh\<close>

text \<open>
  An entry holds the milliseconds since the manifest started and a name. The clock is
  outside the model: every operation that reads it takes the elapsed time as an argument.
\<close>

record ChannelManifestEntry =
  elapsed :: nat
  name :: string

record ChannelManifest =
  enqueueCalls :: "ChannelManifestEntry list"
  executions :: "ChannelManifestEntry list"
  limit :: nat
  truncatedEnqueue :: uint32
  truncatedExecution :: uint32

definition newChannelManifest :: ChannelManifest where
  "newChannelManifest =
     \<lparr>enqueueCalls = [], executions = [], limit = 100,
      truncatedEnqueue = 0, truncatedExecution = 0\<rparr>"

text \<open>The loop \<open>while (list.size() > _limit) { list.pop_front(); truncated++; }\<close>.\<close>

fun truncate :: "nat \<Rightarrow> ChannelManifestEntry list \<Rightarrow> uint32
    \<Rightarrow> ChannelManifestEntry list \<times> uint32" where
  "truncate lim [] t = ([], t)"
| "truncate lim (e # es) t =
     (if length (e # es) > lim then truncate lim es (t + 1) else (e # es, t))"

text \<open>\<open>addEnqueueCall\<close> for a call without delay (\<open>after = 0\<close>), as \<open>enqueue\<close> makes it.\<close>

definition addEnqueueCall :: "nat \<Rightarrow> string \<Rightarrow> ChannelManifest \<Rightarrow> ChannelManifest" where
  "addEnqueueCall ms nm mf =
     (case truncate (limit mf) (enqueueCalls mf @ [\<lparr>elapsed = ms, name = nm\<rparr>])
             (truncatedEnqueue mf) of
        (es, t) \<Rightarrow> mf\<lparr>enqueueCalls := es, truncatedEnqueue := t\<rparr>)"

definition addExecution :: "nat \<Rightarrow> string \<Rightarrow> ChannelManifest \<Rightarrow> ChannelManifest" where
  "addExecution ms nm mf =
     (case truncate (limit mf) (executions mf @ [\<lparr>elapsed = ms, name = nm\<rparr>])
             (truncatedExecution mf) of
        (es, t) \<Rightarrow> mf\<lparr>executions := es, truncatedExecution := t\<rparr>)"

fun digits :: "nat \<Rightarrow> nat \<Rightarrow> string" where
  "digits 0 n = []"
| "digits (Suc k) n =
     (if n < 10 then [char_of (48 + n)] else digits k (n div 10) @ [char_of (48 + n mod 10)])"

text \<open>Decimal output of a number, as \<open>operator<<\<close> prints it.\<close>

definition decimal :: "nat \<Rightarrow> string" where
  "decimal n = digits (Suc n) n"

definition endl :: string where
  "endl = [char_of (10::nat)]"

definition tab :: string where
  "tab = [char_of (9::nat)]"

definition dumpEntry :: "ChannelManifestEntry \<Rightarrow> string" where
  "dumpEntry e = tab @ ''['' @ decimal (elapsed e) @ '' ms] '' @ name e @ endl"

definition dump :: "ChannelManifest \<Rightarrow> string" where
  "dump mf =
     ''List of enqueue calls:'' @ endl @
     (if truncatedEnqueue mf > 0
      then tab @ ''...'' @ decimal (unat (truncatedEnqueue mf)) @ '' truncated frames...''
      else []) @
     concat (map dumpEntry (enqueueCalls mf)) @
     ''Resulting execution calls:'' @ endl @
     (if truncatedExecution mf > 0
      then tab @ ''...'' @ decimal (unat (truncatedExecution mf)) @ '' truncated frames...''
      else []) @
     concat (map dumpEntry (executions mf))"

section \<open>GCDMailbox.cc\<close>

text \<open>
  What running a block can end in: it returns, or it throws. A thrown object is either
  derived from \<open>std::exception\<close> (\<open>StdException\<close>, with the text of \<open>what()\<close>) or of
  any other type (\<open>OtherObject\<close>).
\<close>

datatype Thrown = StdException string | OtherObject

datatype Block = Returns | Throws Thrown

text \<open>
  The block that \<open>enqueue\<close> hands to the dispatch queue: the method name, the block of
  the caller, the manifest it captured (an index into the store of manifests, since the
  manifest is shared through \<open>shared_ptr\<close>), and the clock reading when it runs.
\<close>

record WrappedBlock =
  methodName :: string
  block :: Block
  currentManifest :: nat
  ranAt :: nat

text \<open>
  The mailbox with what it acts on: the store of manifests, the thread-local
  \<open>sCurrentManifest\<close>, \<open>_eventCount\<close>, the serial dispatch queue, and three records of
  its calls on the outside: the exceptions handed to \<open>_actor->caughtException\<close>, the
  texts given to \<open>Warn\<close>, and the number of calls of \<open>_actor->afterEvent\<close>.
\<close>

record Mailbox =
  manifests :: "ChannelManifest list"
  sCurrentManifest :: "nat option"
  eventCount :: int
  queue :: "WrappedBlock list"
  caughtExceptions :: "string list"
  warnings :: "string list"
  afterEvents :: nat

text \<open>
  How control can leave the mailbox's code other than by a return: an exception that no
  handler caught, or the use of \<open>sCurrentManifest\<close> while it is null.
\<close>

datatype Escape = Uncaught Thrown | NullManifest

text \<open>
  \<open>safelyCall\<close>: the handler is \<open>catch (const std::exception &x)\<close>, so an object of
  another type is not caught and leaves the function.
\<close>

definition safelyCall :: "Block \<Rightarrow> Mailbox \<Rightarrow> Escape + Mailbox" where
  "safelyCall b mb =
     (case b of
        Returns \<Rightarrow> Inr mb
      | Throws (StdException x) \<Rightarrow>
          (let mb1 = mb\<lparr>caughtExceptions := caughtExceptions mb @ [x]\<rparr> in
           case sCurrentManifest mb1 of
             None \<Rightarrow> Inl NullManifest
           | Some r \<Rightarrow> Inr (mb1\<lparr>warnings := warnings mb1 @ [dump (manifests mb1 ! r)]\<rparr>))
      | Throws t \<Rightarrow> Inl (Uncaught t))"

definition afterEvent :: "Mailbox \<Rightarrow> Mailbox" where
  "afterEvent mb = mb\<lparr>afterEvents := Suc (afterEvents mb), eventCount := eventCount mb - 1\<rparr>"

text \<open>\<open>enqueue\<close>, at clock reading \<open>ms\<close>; the new block will run at reading \<open>at\<close>.\<close>

definition enqueue :: "nat \<Rightarrow> nat \<Rightarrow> string \<Rightarrow> Block \<Rightarrow> Mailbox \<Rightarrow> Mailbox" where
  "enqueue ms at nm b mb =
     (let mb1 = mb\<lparr>eventCount := eventCount mb + 1\<rparr>;
          (r, mb2) = (case sCurrentManifest mb1 of
                        Some r \<Rightarrow> (r, mb1)
                      | None \<Rightarrow> (length (manifests mb1),
                                 mb1\<lparr>manifests := manifests mb1 @ [newChannelManifest]\<rparr>));
          mb3 = mb2\<lparr>manifests := (manifests mb2)[r := addEnqueueCall ms nm (manifests mb2 ! r)]\<rparr>
      in mb3\<lparr>queue := queue mb3 @
                 [\<lparr>methodName = nm, block = b, currentManifest = r, ranAt = at\<rparr>]\<rparr>)"

text \<open>The body of the wrapped block.\<close>

definition wrappedBlock :: "WrappedBlock \<Rightarrow> Mailbox \<Rightarrow> Escape + Mailbox" where
  "wrappedBlock w mb =
     (let r = currentManifest w;
          mb1 = mb\<lparr>manifests :=
                     (manifests mb)[r := addExecution (ranAt w) (methodName w) (manifests mb ! r)]\<rparr>;
          mb2 = mb1\<lparr>sCurrentManifest := Some r\<rparr>
      in case safelyCall (block w) mb2 of
           Inl t \<Rightarrow> Inl t
         | Inr mb3 \<Rightarrow> Inr ((afterEvent mb3)\<lparr>sCurrentManifest := None\<rparr>))"

text \<open>
  Modelled from the spec: the dispatch queue is the system's; by the spec it is a serial
  queue that runs the enqueued blocks one at a time in FIFO order. \<open>drain\<close> runs the
  blocks of a queue in order; an exception that leaves a block ends it.
\<close>

fun drainBlocks :: "WrappedBlock list \<Rightarrow> Mailbox \<Rightarrow> Escape + Mailbox" where
  "drainBlocks [] mb = Inr mb"
| "drainBlocks (w # ws) mb =
     (case wrappedBlock w mb of
        Inl t \<Rightarrow> Inl t
      | Inr mb' \<Rightarrow> drainBlocks ws mb')"

definition drain :: "Mailbox \<Rightarrow> Escape + Mailbox" where
  "drain mb = drainBlocks (queue mb) (mb\<lparr>queue := []\<rparr>)"

definition newMailbox :: Mailbox where
  "newMailbox =
     \<lparr>manifests = [], sCurrentManifest = None, eventCount = 0, queue = [],
      caughtExceptions = [], warnings = [], afterEvents = 0\<rparr>"


section \<open>Auxiliary notions\<close>

text \<open>
  \<open>grows dst dst'\<close>: \<open>dst'\<close> is \<open>dst\<close> after some bytes were written to it.
  \<open>keeps m m'\<close>: the flags, the number and the two transmission counters are the same.
\<close>

definition grows :: "Dst \<Rightarrow> Dst \<Rightarrow> bool" where
  "grows dst dst' = (\<exists>out. before dst' = before dst @ out \<and> dsize dst = dsize dst' + length out)"

definition keeps :: "MessageOut \<Rightarrow> MessageOut \<Rightarrow> bool" where
  "keeps m m' = (flags m' = flags m \<and> number m' = number m \<and> bytesSent m' = bytesSent m \<and>
           unackedBytes m' = unackedBytes m)"

text \<open>
  The payload of a frame from the bytes the codec wrote: in a compressed frame with
  output, the output without its last 4 bytes.
\<close>

definition framePayload :: "bool \<Rightarrow> byte list \<Rightarrow> byte list" where
  "framePayload compressed out =
     (if compressed \<and> out \<noteq> [] then take (length out - 4) out else out)"

text \<open>
  The mode \<open>nextFrameToSend\<close> chooses, and what it returns when the loop has left the
  codec as \<open>c1\<close>, the message as \<open>m1\<close> and \<open>out\<close> in the buffer.
\<close>

definition frameMode :: "'a Message_scheme \<Rightarrow> Mode" where
  "frameMode m = (if hasFlag m kCompressed then SyncFlush else Raw)"

definition frameResult ::
  "'c Codec \<Rightarrow> MessageOut \<Rightarrow> Dst \<Rightarrow> 'c \<Rightarrow> MessageOut \<Rightarrow> byte list
     \<Rightarrow> 'c \<times> MessageOut \<times> Dst \<times> FrameFlags \<times> MessageProgress list" where
  "frameResult ops m dst c1 m1 out =
     (let body = framePayload (hasFlag m kCompressed) out;
          n = length body + kChecksumSize;
          more = hasMoreDataToSend (contents m1)
      in (c1,
          m1\<lparr>bytesSent := bytesSent m1 + of_nat n, unackedBytes := unackedBytes m1 + of_nat n\<rparr>,
          \<lparr>before = before dst @ body @ enc32 (codec_checksum ops c1), dsize = dsize dst - n\<rparr>,
          (if more then flags m OR kMoreComing else flags m),
          sendProgress (if more then kSending else if noReply m then kComplete else kAwaitingReply)
            (ucast (uncompressedBytesSent m1)) 0))"

text \<open>Messages and sources for concrete runs.\<close>

definition ackedMessage :: MessageOut where
  "ackedMessage = (newMessageOut 0 [] None 1)\<lparr>bytesSent := 100, unackedBytes := 50\<rparr>"

definition smallRequest :: MessageOut where
  "smallRequest = newMessageOut kRequestType [1, 2, 3] None 1"

definition frameBuffer :: Dst where
  "frameBuffer = \<lparr>before = [], dsize = 16384\<rparr>"

definition compressedRequest :: MessageOut where
  "compressedRequest = newMessageOut (kRequestType OR kCompressed) [1, 2, 3] None 1"

definition emptyCompressed :: MessageOut where
  "emptyCompressed = newMessageOut (kRequestType OR kCompressed) [] None 3"

definition sentContents :: Contents where
  "sentContents =
     \<lparr>payload = [], unsentPayload = [], dataSource = None,
      dataBuffer = None, unsentDataBuffer = []\<rparr>"

definition sixBytes :: MessageOut where
  "sixBytes = newMessageOut (kRequestType OR kNoReply) [1, 2, 3, 4, 5, 6] None 2"

definition tinyBuffer :: Dst where
  "tinyBuffer = \<lparr>before = [], dsize = 8\<rparr>"

definition ackMessage :: MessageOut where
  "ackMessage = newMessageOut (kAckRequestType OR kUrgent OR kNoReply) [0xD0, 0x86, 0x03] None 5"

text \<open>
  A request of 4 GiB less one byte, the states it passes through when it is sent in two
  frames with an acknowledgement between them, and the calls that take it there.
\<close>

definition bigMessage :: MessageOut where
  "bigMessage = newMessageOut kRequestType (replicate 4294967295 0) None 1"

definition halfSentMessage :: MessageOut where
  "halfSentMessage =
     bigMessage\<lparr>contents := (contents bigMessage)\<lparr>unsentPayload := replicate 2147483647 0\<rparr>,
                uncompressedBytesSent := 2147483648,
                bytesSent := 2147483652, unackedBytes := 2147483652\<rparr>"

definition wrappedMessage :: MessageOut where
  "wrappedMessage =
     bigMessage\<lparr>contents := (contents bigMessage)\<lparr>unsentPayload := []\<rparr>,
                uncompressedBytesSent := 4294967295,
                bytesSent := 7, unackedBytes := 2147483651\<rparr>"

definition wrapCalls :: "Call list" where
  "wrapCalls = [NextFrame 2147483652, ReceivedAck 2147483652, NextFrame 2147483652]"

text \<open>
  A request of 4293918720 bytes (262144 frames of 16384 bytes, each with 16380 bytes of
  payload and the checksum). \<open>streamed k u\<close> is the message after \<open>k\<close> such frames,
  with \<open>unackedBytes = u\<close>; \<open>fullFrame\<close> is one of the frames.
\<close>

definition streamed :: "nat \<Rightarrow> uint32 \<Rightarrow> MessageOut" where
  "streamed k u =
     \<lparr>flags = kRequestType, number = 1,
      contents = \<lparr>payload = replicate 4293918720 0,
                  unsentPayload = replicate (4293918720 - k * 16380) 0,
                  dataSource = None, dataBuffer = None, unsentDataBuffer = []\<rparr>,
      uncompressedBytesSent = of_nat (k * 16380),
      bytesSent = of_nat (k * 16384),
      unackedBytes = u\<rparr>"

definition fullFrame :: "byte list" where
  "fullFrame = replicate 16380 0 @ [0, 0, 0, 0]"

text \<open>
  Three data sources: one that returns 100 bytes at every call, one that fills the buffer
  at every call (with bytes that count the calls), one that returns no bytes.
\<close>

definition shortSource :: MessageDataSource where
  "shortSource k cap = Wrote (replicate 100 1)"

definition fullSource :: MessageDataSource where
  "fullSource k cap = Wrote (replicate cap (of_nat k))"

definition emptySource :: MessageDataSource where
  "emptySource k cap = Wrote []"

text \<open>
  A mailbox on which two blocks were enqueued from outside any block: the first throws
  \<open>t\<close>, the second returns.
\<close>

definition twoBlocks :: "Thrown \<Rightarrow> Mailbox" where
  "twoBlocks t =
     enqueue 1 3 ''second'' Returns (enqueue 0 2 ''first'' (Throws t) newMailbox)"

section \<open>The loop and the frame\<close>

lemma grows_trans: "grows a b \<Longrightarrow> grows b c \<Longrightarrow> grows a c"
  by (auto simp: grows_def)
lemma keeps_trans: "keeps a b \<Longrightarrow> keeps b c \<Longrightarrow> keeps a c"
  by (auto simp: keeps_def)

lemma frameStep_Stop:
  "frameStep ops mode c m dst = Stop (Inr (c', m', dst')) \<Longrightarrow> keeps m m' \<and> grows dst dst'"
  by (auto simp: frameStep_def Let_def keeps_def grows_def put_def
      split: option.splits prod.splits if_splits)

lemma frameStep_Again:
  "frameStep ops mode c m dst = Again c' m' dst' \<Longrightarrow>
     keeps m m' \<and> grows dst dst' \<and> 1024 \<le> dsize dst'"
  by (auto simp: frameStep_def Let_def keeps_def grows_def put_def
      split: option.splits prod.splits if_splits)

lemma writeFrame_keeps:
  assumes "writeFrame ops mode c m dst = Some r"
  shows "case r of Inl e \<Rightarrow> True | Inr (c', m', dst') \<Rightarrow> keeps m m' \<and> grows dst dst'"
proof (rule writeFrame.raw_induct
    [where P = "\<lambda>ops mode c m dst r. case r of Inl e \<Rightarrow> True | Inr (c', m', dst') \<Rightarrow> keeps m m' \<and> grows dst dst'",
      OF _ assms], goal_cases)
  case (1 wf ops mode c m dst r)
  show ?case
  proof (cases "frameStep ops mode c m dst")
    case (Stop r')
    with 1(2) frameStep_Stop[of ops mode c m dst] show ?thesis
      by (auto split: sum.splits)
  next
    case (Again c' m' dst')
    with 1(2) have "wf ops mode c' m' dst' = Some r" by simp
    from 1(1)[OF this] frameStep_Again[OF Again] show ?thesis
      by (auto split: sum.splits intro: grows_trans keeps_trans)
  qed
qed

lemma writeFrame_Inr:
  "writeFrame ops mode c m dst = Some (Inr (c', m', dst')) \<Longrightarrow> keeps m m' \<and> grows dst dst'"
  using writeFrame_keeps [of ops mode c m dst "Inr (c', m', dst')"] by simp

lemma length_enc32: "length (enc32 w) = 4"
  by (simp add: enc32_def)


lemma nextFrameToSend_after_loop:
  assumes nonack: "\<not> isAck m"
    and fits: "length out + 4 \<le> dsize dst"
    and wf: "writeFrame ops (frameMode m) c m (setSize (dsize dst - kChecksumSize) dst)
             = Some (Inr (c1, m1, \<lparr>before = before dst @ out,
                                    dsize = dsize dst - 4 - length out\<rparr>))"
  shows "nextFrameToSend ops c m dst =
     (if codec_unflushedBytes ops c1 > 0 then Some (Inl CompressionBufferOverflow)
      else if hasFlag m kCompressed \<and> out \<noteq> [] \<and>
              \<not> (4 \<le> length out \<and> drop (length out - 4) out = syncFlushTrailer)
      then Some (Inl AssertionFailed)
      else Some (Inr (frameResult ops m dst c1 m1 out)))"
proof -
  have bw: "dsize dst - 4 - (dsize dst - 4 - length out) = length out"
    using fits by simp
  have m: "(frameMode m = SyncFlush) = hasFlag m kCompressed"
    by (simp add: frameMode_def)
  have wfS: "writeFrame ops SyncFlush c m (dst\<lparr>dsize := dsize dst - 4\<rparr>)
             = Some (Inr (c1, m1, \<lparr>before = before dst @ out,
                                    dsize = dsize dst - 4 - length out\<rparr>))"
    if "hasFlag m kCompressed"
    using wf that by (simp add: frameMode_def kChecksumSize_def setSize_def)
  have wfR: "writeFrame ops Raw c m (dst\<lparr>dsize := dsize dst - 4\<rparr>)
             = Some (Inr (c1, m1, \<lparr>before = before dst @ out,
                                    dsize = dsize dst - 4 - length out\<rparr>))"
    if "\<not> hasFlag m kCompressed"
    using wf that by (simp add: frameMode_def kChecksumSize_def setSize_def)
  note wf' = wfS wfR
  show ?thesis
  proof (cases "hasFlag m kCompressed \<and> out \<noteq> []")
    case True
    show ?thesis
    proof (cases "4 \<le> length out \<and> drop (length out - 4) out = syncFlushTrailer")
      case good: True
      then have "nextFrameToSend ops c m dst =
        (if codec_unflushedBytes ops c1 > 0 then Some (Inl CompressionBufferOverflow)
         else Some (Inr (frameResult ops m dst c1 m1 out)))"
        using nonack fits True
        by (auto simp add: nextFrameToSend_def kChecksumSize_def wf' bw Let_def frameResult_def
            framePayload_def moveStartBack_def setSize_def writeChecksum_def put_def
            length_enc32)
      with True good show ?thesis by simp
    next
      case bad: False
      then have "nextFrameToSend ops c m dst =
        (if codec_unflushedBytes ops c1 > 0 then Some (Inl CompressionBufferOverflow)
         else Some (Inl AssertionFailed))"
        using nonack fits True
        by (auto simp add: nextFrameToSend_def kChecksumSize_def wf' bw Let_def setSize_def)
      with True bad show ?thesis by auto
    qed
  next
    case False
    then have "nextFrameToSend ops c m dst =
        (if codec_unflushedBytes ops c1 > 0 then Some (Inl CompressionBufferOverflow)
         else Some (Inr (frameResult ops m dst c1 m1 out)))"
      using nonack fits
      by (auto simp add: nextFrameToSend_def kChecksumSize_def wf' bw Let_def frameResult_def
            framePayload_def moveStartBack_def setSize_def writeChecksum_def put_def
            length_enc32)
    with False show ?thesis by auto
  qed
qed


lemma nextFrameToSend_Inr:
  assumes nonack: "\<not> isAck m"
    and ok: "nextFrameToSend ops c m dst = Some (Inr r)"
  shows "\<exists>c1 m1 out.
           writeFrame ops (frameMode m) c m (setSize (dsize dst - kChecksumSize) dst)
             = Some (Inr (c1, m1, \<lparr>before = before dst @ out,
                                    dsize = dsize dst - 4 - length out\<rparr>)) \<and>
           length out + 4 \<le> dsize dst \<and> keeps m m1 \<and>
           codec_unflushedBytes ops c1 = 0 \<and>
           (hasFlag m kCompressed \<and> out \<noteq> [] \<longrightarrow>
              4 \<le> length out \<and> drop (length out - 4) out = syncFlushTrailer) \<and>
           r = frameResult ops m dst c1 m1 out"
proof -
  let ?dst1 = "setSize (dsize dst - kChecksumSize) dst"
  from ok nonack have big: "4 \<le> dsize dst"
    by (auto simp: nextFrameToSend_def kChecksumSize_def split: if_splits)
  from ok nonack big obtain c1 m1 dst2 where
    wf: "writeFrame ops (frameMode m) c m ?dst1 = Some (Inr (c1, m1, dst2))"
    by (auto simp: nextFrameToSend_def Let_def frameMode_def kChecksumSize_def
        split: if_splits option.splits sum.splits)
  from writeFrame_Inr[OF wf] obtain out where
    k: "keeps m m1" and b2: "before dst2 = before dst @ out"
    and d2: "dsize dst - 4 = dsize dst2 + length out"
    by (auto simp: grows_def setSize_def kChecksumSize_def)
  have dst2: "dst2 = \<lparr>before = before dst @ out, dsize = dsize dst - 4 - length out\<rparr>"
    using b2 d2 by (cases dst2) auto
  have fits: "length out + 4 \<le> dsize dst" using d2 big by simp
  note eq = nextFrameToSend_after_loop[OF nonack fits wf[unfolded dst2]]
  from ok eq show ?thesis
    using wf[unfolded dst2] fits k
    by (auto split: if_splits)
qed

lemma frameStep_decreases:
  assumes "codec_progress ops" and "frameStep ops mode c m dst = Again c' m' dst'"
  shows "dsize dst' < dsize dst"
proof -
  from assms(2) obtain w c1 out n where
    d: "dataToSend (contents m) = Some (w, c1)" and ne: "sliceOf w c1 \<noteq> []"
    and cw: "codec_write ops c (sliceOf w c1) (dsize dst) mode = (out, n, c')"
    and le: "length out \<le> dsize dst" and big: "1024 \<le> dsize dst - length out"
    and dst': "dst' = put out dst"
    by (auto simp: frameStep_def Let_def put_def
        split: option.splits prod.splits if_splits)
  from big have "1024 \<le> dsize dst" by simp
  with assms(1) ne have "fst (codec_write ops c (sliceOf w c1) (dsize dst) mode) \<noteq> []"
    unfolding codec_progress_def by blast
  with cw have "out \<noteq> []" by simp
  with le big dst' show ?thesis by (cases out) (auto simp: put_def)
qed

lemma writeFrame_returns:
  assumes "codec_progress ops"
  shows "\<exists>r. writeFrame ops mode c m dst = Some r"
proof (induction "dsize dst" arbitrary: c m dst rule: less_induct)
  case less
  show ?case
  proof (cases "frameStep ops mode c m dst")
    case (Stop r)
    then show ?thesis by (subst writeFrame.simps) simp
  next
    case (Again c' m' dst')
    from frameStep_decreases[OF assms Again] have "dsize dst' < dsize dst" .
    from less[OF this] obtain r where "writeFrame ops mode c' m' dst' = Some r" by blast
    with Again show ?thesis by (subst writeFrame.simps) simp
  qed
qed

lemma nextFrameToSend_returns:
  assumes "codec_progress ops"
  shows "nextFrameToSend ops c m dst \<noteq> None"
proof -
  obtain r where "writeFrame ops (if hasFlag m kCompressed then SyncFlush else Raw) c m
      (setSize (dsize dst - kChecksumSize) dst) = Some r"
    using writeFrame_returns[OF assms] by blast
  then show ?thesis
    by (auto simp: nextFrameToSend_def Let_def split: option.splits sum.splits prod.splits)
qed


section \<open>Concrete frames\<close>

lemma writeFrame_Stop:
  "frameStep ops mode c m dst = Stop r \<Longrightarrow> writeFrame ops mode c m dst = Some r"
  by (subst writeFrame.simps) simp

lemma writeFrame_Again:
  "frameStep ops mode c m dst = Again c' m' dst' \<Longrightarrow>
     writeFrame ops mode c m dst = writeFrame ops mode c' m' dst'"
  by (subst writeFrame.simps) simp

lemma testCodec_simps:
  "codec_write testCodec c data room Raw = (take room data, min room (length data), 0)"
  "codec_write testCodec c data room SyncFlush =
     (take room (data @ syncFlushTrailer), length data,
      length data + 4 - min room (length data + 4))"
  "codec_unflushedBytes testCodec c = c"
  "codec_checksum testCodec c = 0"
  by (simp_all add: testCodec_def)

lemmas eval_defs = frameStep_def dataToSend_def sliceOf_def consume_def put_def Let_def
  testCodec_simps newMessageOut_def newContents_def setSize_def kChecksumSize_def
  frameMode_def hasFlag_def isAck_def type_def noReply_def
  kTypeMask_def kRequestType_def kAckRequestType_def kAckResponseType_def
  kCompressed_def kNoReply_def kMoreComing_def

lemma testCodec_progress: "codec_progress testCodec"
  by (auto simp: codec_progress_def testCodec_def syncFlushTrailer_def split: Mode.splits)


lemma smallRequest_loop:
  "writeFrame testCodec (frameMode smallRequest) 0 smallRequest
       (setSize (dsize frameBuffer - kChecksumSize) frameBuffer)
     = Some (Inr (0, smallRequest\<lparr>contents := sentContents, uncompressedBytesSent := 3\<rparr>,
                  \<lparr>before = before frameBuffer @ [1, 2, 3],
                   dsize = dsize frameBuffer - 4 - length [1, 2, 3 :: byte]\<rparr>))"
proof -
  let ?m = "smallRequest\<lparr>contents := (contents smallRequest)\<lparr>unsentPayload := []\<rparr>,
                           uncompressedBytesSent := 3\<rparr>"
  have 1: "frameStep testCodec Raw 0 smallRequest \<lparr>before = [], dsize = 16380\<rparr>
             = Again 0 ?m \<lparr>before = [1, 2, 3], dsize = 16377\<rparr>"
    by (simp add: smallRequest_def eval_defs)
  have 2: "frameStep testCodec Raw 0 ?m \<lparr>before = [1, 2, 3], dsize = 16377\<rparr>
             = Stop (Inr (0, smallRequest\<lparr>contents := sentContents, uncompressedBytesSent := 3\<rparr>,
                  \<lparr>before = [1, 2, 3], dsize = 16377\<rparr>))"
    by (simp add: smallRequest_def sentContents_def eval_defs)
  show ?thesis
    using writeFrame_Again [OF 1] writeFrame_Stop [OF 2]
    by (simp add: smallRequest_def frameBuffer_def eval_defs)
qed

lemma smallRequest_frame:
  "nextFrameToSend testCodec 0 smallRequest frameBuffer =
     Some (Inr (0,
       smallRequest\<lparr>contents := sentContents, uncompressedBytesSent := 3,
                     bytesSent := 7, unackedBytes := 7\<rparr>,
       \<lparr>before = [1, 2, 3, 0, 0, 0, 0], dsize = 16377\<rparr>,
       kRequestType, [Progress kAwaitingReply 3 0]))"
proof -
  have a: "\<not> isAck smallRequest" by (simp add: smallRequest_def eval_defs)
  have f: "length [1, 2, 3 :: byte] + 4 \<le> dsize frameBuffer" by (simp add: frameBuffer_def)
  show ?thesis
    unfolding nextFrameToSend_after_loop [OF a f smallRequest_loop]
    by (simp add: frameResult_def framePayload_def smallRequest_def sentContents_def frameBuffer_def
        enc32_def hasMoreDataToSend_def sendProgress_def eval_defs)
qed


lemma sixBytes_loop:
  "writeFrame testCodec (frameMode sixBytes) 0 sixBytes
       (setSize (dsize tinyBuffer - kChecksumSize) tinyBuffer)
     = Some (Inr (0, sixBytes\<lparr>contents := (contents sixBytes)\<lparr>unsentPayload := [5, 6]\<rparr>,
                               uncompressedBytesSent := 4\<rparr>,
                  \<lparr>before = before tinyBuffer @ [1, 2, 3, 4],
                   dsize = dsize tinyBuffer - 4 - length [1, 2, 3, 4 :: byte]\<rparr>))"
proof -
  have 1: "frameStep testCodec Raw 0 sixBytes \<lparr>before = [], dsize = 4\<rparr>
             = Stop (Inr (0, sixBytes\<lparr>contents := (contents sixBytes)\<lparr>unsentPayload := [5, 6]\<rparr>,
                               uncompressedBytesSent := 4\<rparr>,
                  \<lparr>before = [1, 2, 3, 4], dsize = 0\<rparr>))"
    by (simp add: sixBytes_def eval_defs)
  show ?thesis
    using writeFrame_Stop [OF 1]
    by (simp add: sixBytes_def tinyBuffer_def eval_defs kNoReply_def)
qed

lemma sixBytes_frame:
  "nextFrameToSend testCodec 0 sixBytes tinyBuffer =
     Some (Inr (0,
       sixBytes\<lparr>contents := (contents sixBytes)\<lparr>unsentPayload := [5, 6]\<rparr>,
                 uncompressedBytesSent := 4, bytesSent := 8, unackedBytes := 8\<rparr>,
       \<lparr>before = [1, 2, 3, 4, 0, 0, 0, 0], dsize = 0\<rparr>,
       kRequestType OR kNoReply OR kMoreComing, [Progress kSending 4 0]))"
proof -
  have a: "\<not> isAck sixBytes" by (simp add: sixBytes_def eval_defs)
  have f: "length [1, 2, 3, 4 :: byte] + 4 \<le> dsize tinyBuffer" by (simp add: tinyBuffer_def)
  show ?thesis
    unfolding nextFrameToSend_after_loop [OF a f sixBytes_loop]
    by (simp add: frameResult_def framePayload_def sixBytes_def tinyBuffer_def
        enc32_def hasMoreDataToSend_def sendProgress_def eval_defs)
qed

lemma compressedRequest_loop:
  "writeFrame testCodec (frameMode compressedRequest) 0 compressedRequest
       (setSize (dsize frameBuffer - kChecksumSize) frameBuffer)
     = Some (Inr (0, compressedRequest\<lparr>contents := sentContents, uncompressedBytesSent := 3\<rparr>,
                  \<lparr>before = before frameBuffer @ [1, 2, 3, 0, 0, 0xFF, 0xFF],
                   dsize = dsize frameBuffer - 4 - length [1, 2, 3, 0, 0, 0xFF, 0xFF :: byte]\<rparr>))"
proof -
  let ?m = "compressedRequest\<lparr>contents := (contents compressedRequest)\<lparr>unsentPayload := []\<rparr>,
                           uncompressedBytesSent := 3\<rparr>"
  have 1: "frameStep testCodec SyncFlush 0 compressedRequest \<lparr>before = [], dsize = 16380\<rparr>
             = Again 0 ?m \<lparr>before = [1, 2, 3, 0, 0, 0xFF, 0xFF], dsize = 16373\<rparr>"
    by (simp add: compressedRequest_def syncFlushTrailer_def eval_defs)
  have 2: "frameStep testCodec SyncFlush 0 ?m \<lparr>before = [1, 2, 3, 0, 0, 0xFF, 0xFF], dsize = 16373\<rparr>
             = Stop (Inr (0, compressedRequest\<lparr>contents := sentContents, uncompressedBytesSent := 3\<rparr>,
                  \<lparr>before = [1, 2, 3, 0, 0, 0xFF, 0xFF], dsize = 16373\<rparr>))"
    by (simp add: compressedRequest_def sentContents_def eval_defs)
  show ?thesis
    using writeFrame_Again [OF 1] writeFrame_Stop [OF 2]
    by (simp add: compressedRequest_def frameBuffer_def eval_defs)
qed

lemma compressedRequest_frame:
  "nextFrameToSend testCodec 0 compressedRequest frameBuffer =
     Some (Inr (0,
       compressedRequest\<lparr>contents := sentContents, uncompressedBytesSent := 3,
                     bytesSent := 7, unackedBytes := 7\<rparr>,
       \<lparr>before = [1, 2, 3, 0, 0, 0, 0], dsize = 16377\<rparr>,
       kRequestType OR kCompressed, [Progress kAwaitingReply 3 0]))"
proof -
  have a: "\<not> isAck compressedRequest" by (simp add: compressedRequest_def eval_defs)
  have f: "length [1, 2, 3, 0, 0, 0xFF, 0xFF :: byte] + 4 \<le> dsize frameBuffer"
    by (simp add: frameBuffer_def)
  show ?thesis
    unfolding nextFrameToSend_after_loop [OF a f compressedRequest_loop]
    by (simp add: frameResult_def framePayload_def compressedRequest_def sentContents_def
        frameBuffer_def syncFlushTrailer_def
        enc32_def hasMoreDataToSend_def sendProgress_def eval_defs)
qed

lemma emptyCompressed_loop:
  "writeFrame testCodec SyncFlush 0 emptyCompressed
       (setSize (dsize frameBuffer - kChecksumSize) frameBuffer)
     = Some (Inr (0, emptyCompressed,
                  \<lparr>before = before frameBuffer @ [],
                   dsize = dsize frameBuffer - kChecksumSize - length ([] :: byte list)\<rparr>))"
proof -
  have 1: "frameStep testCodec SyncFlush 0 emptyCompressed \<lparr>before = [], dsize = 16380\<rparr>
             = Stop (Inr (0, emptyCompressed, \<lparr>before = [], dsize = 16380\<rparr>))"
    by (simp add: emptyCompressed_def eval_defs)
  show ?thesis
    using writeFrame_Stop [OF 1] by (simp add: frameBuffer_def eval_defs)
qed

lemma compressedRequest_syncFlush:
  "writeFrame testCodec SyncFlush 0 compressedRequest
       (setSize (dsize frameBuffer - kChecksumSize) frameBuffer)
     = Some (Inr (0, compressedRequest\<lparr>contents := sentContents, uncompressedBytesSent := 3\<rparr>,
                  \<lparr>before = before frameBuffer @ [1, 2, 3, 0, 0, 0xFF, 0xFF],
                   dsize = dsize frameBuffer - kChecksumSize
                             - length [1, 2, 3, 0, 0, 0xFF, 0xFF :: byte]\<rparr>))"
  using compressedRequest_loop
  by (simp add: frameMode_def compressedRequest_def eval_defs)

lemma bigMessage_frame:
  "nextFrameToSend testCodec 0 bigMessage \<lparr>before = [], dsize = 2147483652\<rparr> =
     Some (Inr (0, halfSentMessage,
                \<lparr>before = replicate 2147483648 0 @ [0, 0, 0, 0], dsize = 0\<rparr>,
                kRequestType OR kMoreComing, [Progress kSending 2147483648 0]))"
proof -
  let ?d = "\<lparr>before = [], dsize = 2147483652\<rparr>"
  let ?m1 = "bigMessage\<lparr>contents := (contents bigMessage)\<lparr>unsentPayload := replicate 2147483647 0\<rparr>,
                uncompressedBytesSent := 2147483648\<rparr>"
  have a: "\<not> isAck bigMessage" by (simp add: bigMessage_def eval_defs)
  have f: "length (replicate 2147483648 (0 :: byte)) + 4 \<le> dsize ?d" by simp
  have 1: "frameStep testCodec Raw 0 bigMessage \<lparr>before = [], dsize = 2147483648\<rparr>
             = Stop (Inr (0, ?m1, \<lparr>before = replicate 2147483648 0, dsize = 0\<rparr>))"
    by (simp add: bigMessage_def eval_defs)
  have loop: "writeFrame testCodec (frameMode bigMessage) 0 bigMessage
       (setSize (dsize ?d - kChecksumSize) ?d)
     = Some (Inr (0, ?m1, \<lparr>before = before ?d @ replicate 2147483648 0,
                   dsize = dsize ?d - 4 - length (replicate 2147483648 (0 :: byte))\<rparr>))"
    using writeFrame_Stop [OF 1] by (simp add: bigMessage_def eval_defs)
  show ?thesis
    unfolding nextFrameToSend_after_loop [OF a f loop]
    by (simp add: frameResult_def framePayload_def bigMessage_def halfSentMessage_def
        enc32_def hasMoreDataToSend_def sendProgress_def eval_defs)
qed

lemma halfSentMessage_acked:
  "receivedAck 2147483652 halfSentMessage = halfSentMessage\<lparr>unackedBytes := 0\<rparr>"
  by (simp add: receivedAck_def halfSentMessage_def)

lemma halfSentMessage_frame:
  "nextFrameToSend testCodec 0 (halfSentMessage\<lparr>unackedBytes := 0\<rparr>)
       \<lparr>before = [], dsize = 2147483652\<rparr> =
     Some (Inr (0, wrappedMessage,
                \<lparr>before = replicate 2147483647 0 @ [0, 0, 0, 0], dsize = 1\<rparr>,
                kRequestType, [Progress kAwaitingReply 4294967295 0]))"
proof -
  let ?d = "\<lparr>before = [], dsize = 2147483652\<rparr>"
  let ?m = "halfSentMessage\<lparr>unackedBytes := 0\<rparr>"
  let ?m1 = "?m\<lparr>contents := (contents bigMessage)\<lparr>unsentPayload := []\<rparr>,
                uncompressedBytesSent := 4294967295\<rparr>"
  have a: "\<not> isAck ?m" by (simp add: halfSentMessage_def bigMessage_def eval_defs)
  have f: "length (replicate 2147483647 (0 :: byte)) + 4 \<le> dsize ?d" by simp
  have 1: "frameStep testCodec Raw 0 ?m \<lparr>before = [], dsize = 2147483648\<rparr>
             = Stop (Inr (0, ?m1, \<lparr>before = replicate 2147483647 0, dsize = 1\<rparr>))"
    by (simp add: halfSentMessage_def bigMessage_def eval_defs)
  have loop: "writeFrame testCodec (frameMode ?m) 0 ?m
       (setSize (dsize ?d - kChecksumSize) ?d)
     = Some (Inr (0, ?m1, \<lparr>before = before ?d @ replicate 2147483647 0,
                   dsize = dsize ?d - 4 - length (replicate 2147483647 (0 :: byte))\<rparr>))"
    using writeFrame_Stop [OF 1] by (simp add: halfSentMessage_def bigMessage_def eval_defs)
  show ?thesis
    unfolding nextFrameToSend_after_loop [OF a f loop]
    by (simp add: frameResult_def framePayload_def bigMessage_def halfSentMessage_def
        wrappedMessage_def
        enc32_def hasMoreDataToSend_def sendProgress_def eval_defs)
qed

lemma wrap_run:
  "run testCodec 0 bigMessage wrapCalls =
     Some (Inr (0, wrappedMessage,
                [replicate 2147483648 0 @ [0, 0, 0, 0], replicate 2147483647 0 @ [0, 0, 0, 0]]))"
  by (simp add: wrapCalls_def bigMessage_frame halfSentMessage_acked halfSentMessage_frame)

lemma streamed_frame:
  assumes "k < 262144"
  shows "\<exists>fl ev. nextFrameToSend testCodec 0 (streamed k u) \<lparr>before = [], dsize = 16384\<rparr> =
     Some (Inr (0, streamed (Suc k) (u + 16384), \<lparr>before = fullFrame, dsize = 0\<rparr>, fl, ev))"
proof -
  let ?d = "\<lparr>before = [], dsize = 16384\<rparr>"
  let ?m = "streamed k u"
  let ?m1 = "(streamed (Suc k) u)\<lparr>bytesSent := of_nat (k * 16384)\<rparr>"
  have rem: "16380 \<le> 4293918720 - k * 16380" using assms by simp
  have a: "\<not> isAck ?m" by (simp add: streamed_def eval_defs)
  have f: "length (replicate 16380 (0 :: byte)) + 4 \<le> dsize ?d" by simp
  have w: "(word_of_nat (k * 16380) :: uint32) + word_of_nat (4293918720 - k * 16380)
             - word_of_nat (4293918720 - k * 16380 - 16380)
           = word_of_nat (16380 + k * 16380)"
    using rem by (simp add: of_nat_diff)
  have 1: "frameStep testCodec Raw 0 ?m \<lparr>before = [], dsize = 16380\<rparr>
             = Stop (Inr (0, ?m1, \<lparr>before = replicate 16380 0, dsize = 0\<rparr>))"
    using rem w by (simp add: streamed_def eval_defs min_absorb1)
  have loop: "writeFrame testCodec (frameMode ?m) 0 ?m
       (setSize (dsize ?d - kChecksumSize) ?d)
     = Some (Inr (0, ?m1, \<lparr>before = before ?d @ replicate 16380 0,
                   dsize = dsize ?d - 4 - length (replicate 16380 (0 :: byte))\<rparr>))"
    using writeFrame_Stop [OF 1] by (simp add: streamed_def eval_defs)
  show ?thesis
    unfolding nextFrameToSend_after_loop [OF a f loop]
    by (simp add: frameResult_def framePayload_def streamed_def fullFrame_def
        enc32_def eval_defs)
qed

lemma streamed_run:
  "k + n \<le> 262144 \<Longrightarrow>
   run testCodec 0 (streamed (k + n) (u + of_nat (n * 16384))) rest = Some (Inr (c, m, fs)) \<Longrightarrow>
   run testCodec 0 (streamed k u) (replicate n (NextFrame 16384) @ rest)
     = Some (Inr (c, m, replicate n fullFrame @ fs))"
proof (induction n arbitrary: k u)
  case 0
  then show ?case by simp
next
  case (Suc n)
  from Suc.prems(1) have k: "k < 262144" by simp
  from streamed_frame [OF k, of u] obtain fl ev where
    nf: "nextFrameToSend testCodec 0 (streamed k u) \<lparr>before = [], dsize = 16384\<rparr> =
     Some (Inr (0, streamed (Suc k) (u + 16384), \<lparr>before = fullFrame, dsize = 0\<rparr>, fl, ev))"
    by blast
  have "run testCodec 0 (streamed (Suc k) (u + 16384)) (replicate n (NextFrame 16384) @ rest)
     = Some (Inr (c, m, replicate n fullFrame @ fs))"
  proof (rule Suc.IH)
    show "Suc k + n \<le> 262144" using Suc.prems(1) by simp
    have "u + 16384 + word_of_nat (n * 16384) = u + word_of_nat (Suc n * 16384)"
      by (simp add: algebra_simps)
    with Suc.prems(2)
    show "run testCodec 0 (streamed (Suc k + n) (u + 16384 + word_of_nat (n * 16384))) rest
            = Some (Inr (c, m, fs))"
      by (simp add: add.assoc)
  qed
  with nf show ?case by simp
qed

lemma streamed_wrap:
  "run testCodec 0 (newMessageOut kRequestType (replicate 4293918720 0) None 1)
       (replicate 262143 (NextFrame 16384) @ [ReceivedAck 4294950912, NextFrame 16384])
     = Some (Inr (0, streamed 262144 16384, replicate 262143 fullFrame @ [fullFrame]))"
proof -
  have fresh: "newMessageOut kRequestType (replicate 4293918720 0) None 1 = streamed 0 0"
    by (simp add: newMessageOut_def newContents_def streamed_def)
  have ack: "receivedAck 4294950912 (streamed 262143 (0 + of_nat (262143 * 16384)))
               = streamed 262143 0"
    by (simp add: receivedAck_def streamed_def)
  from streamed_frame [of 262143 0] obtain fl ev where
    nf: "nextFrameToSend testCodec 0 (streamed 262143 0) \<lparr>before = [], dsize = 16384\<rparr> =
     Some (Inr (0, streamed 262144 16384, \<lparr>before = fullFrame, dsize = 0\<rparr>, fl, ev))"
    by auto
  have rest: "run testCodec 0 (streamed (0 + 262143) (0 + of_nat (262143 * 16384)))
                [ReceivedAck 4294950912, NextFrame 16384]
              = Some (Inr (0, streamed 262144 16384, [fullFrame]))"
    using ack nf by simp
  show ?thesis
    unfolding fresh by (rule streamed_run [OF _ rest]) simp
qed

lemma streamed_wrapped:
  "bytesSent (streamed 262144 16384) = 0 \<and> unackedBytes (streamed 262144 16384) = 16384"
  by (simp add: streamed_def)

section \<open>nextFrameToSend\<close>

text \<open>
  Claim C7. For a message of ack type whose body (at least one byte, the varint) fits
  into \<open>dst\<close>, \<open>nextFrameToSend\<close> appends exactly the body to \<open>dst\<close>: nothing goes
  through the codec, whose state is returned as it was, and no checksum follows. It adds
  the size of the body to \<open>bytesSent\<close>, changes no other field of the message, returns
  the flags of the message and reports no progress.
\<close>

theorem ack_frame:
  "isAck m \<and> unsentPayload (contents m) \<noteq> [] \<and>
   length (unsentPayload (contents m)) \<le> dsize dst \<longrightarrow>
     nextFrameToSend ops c m dst =
       Some (Inr (c,
                  m\<lparr>bytesSent := bytesSent m + of_nat (length (unsentPayload (contents m)))\<rparr>,
                  \<lparr>before = before dst @ unsentPayload (contents m),
                   dsize = dsize dst - length (unsentPayload (contents m))\<rparr>,
                  flags m, []))"
  by (simp add: nextFrameToSend_def dataToSend_def sliceOf_def writeFrom_def put_def Let_def)

theorem ack_frame_witness:
  "isAck ackMessage \<and>
   nextFrameToSend testCodec 0 ackMessage frameBuffer =
     Some (Inr (0, ackMessage\<lparr>bytesSent := 3\<rparr>,
                \<lparr>before = [0xD0, 0x86, 0x03], dsize = 16381\<rparr>,
                kAckRequestType OR kUrgent OR kNoReply, []))"
  using ack_frame [of ackMessage frameBuffer testCodec 0]
  by (simp add: ackMessage_def frameBuffer_def eval_defs kUrgent_def)


lemma moreComing_set: "(f OR kMoreComing) AND kMoreComing \<noteq> 0"
  by (simp add: kMoreComing_def bit.conj_disj_distrib2)

text \<open>
  Claim C6. With a codec that makes progress, a call of \<open>nextFrameToSend\<close> returns or
  throws. A call on a message that is not an ack returns normally when the loop ends
  normally, the codec has no unflushed bytes and, if the message is compressed and the
  codec wrote something, the output ends with the sync-flush trailer. The returned flags
  are then the flags of the message with \<open>MoreComing\<close> added exactly when
  \<open>hasMoreDataToSend\<close> holds of the contents after the frame was filled; the one progress
  notification carries \<open>Sending\<close> in that case, else \<open>Complete\<close> when \<open>NoReply\<close> is
  set and \<open>AwaitingReply\<close> when it is not. For a message whose own flags do not carry
  the frame flag \<open>MoreComing\<close>, the returned flags have it set if and only if there is
  more data to send.
\<close>

theorem nextFrameToSend_flags_state:
  "(codec_progress ops \<longrightarrow> nextFrameToSend ops c m dst \<noteq> None) \<and>
   (\<not> isAck m \<and> length out + kChecksumSize \<le> dsize dst \<and>
    writeFrame ops (if hasFlag m kCompressed then SyncFlush else Raw) c m
        (setSize (dsize dst - kChecksumSize) dst)
      = Some (Inr (c1, m1, \<lparr>before = before dst @ out,
                             dsize = dsize dst - kChecksumSize - length out\<rparr>)) \<and>
    codec_unflushedBytes ops c1 = 0 \<and>
    (hasFlag m kCompressed \<and> out \<noteq> [] \<longrightarrow>
       4 \<le> length out \<and> drop (length out - 4) out = syncFlushTrailer) \<longrightarrow>
      (\<exists>m' dst'.
         nextFrameToSend ops c m dst =
           Some (Inr (c1, m', dst',
                  (if hasMoreDataToSend (contents m1) then flags m OR kMoreComing else flags m),
                  [Progress (if hasMoreDataToSend (contents m1) then kSending
                             else if noReply m then kComplete else kAwaitingReply)
                     (ucast (uncompressedBytesSent m1)) 0])) \<and>
         contents m' = contents m1 \<and> uncompressedBytesSent m' = uncompressedBytesSent m1)) \<and>
   (\<not> isAck m \<and> nextFrameToSend ops c m dst = Some (Inr (c', m', dst', fl, ev)) \<longrightarrow>
      fl = (if hasMoreDataToSend (contents m') then flags m OR kMoreComing else flags m) \<and>
      ev = [Progress (if hasMoreDataToSend (contents m') then kSending
                      else if noReply m then kComplete else kAwaitingReply)
              (ucast (uncompressedBytesSent m')) 0] \<and>
      (\<not> hasFlag m kMoreComing \<longrightarrow>
         (fl AND kMoreComing \<noteq> 0) = hasMoreDataToSend (contents m')))"
proof (intro conjI impI)
  assume "codec_progress ops"
  then show "nextFrameToSend ops c m dst \<noteq> None" by (rule nextFrameToSend_returns)
next
  assume a: "\<not> isAck m \<and> length out + kChecksumSize \<le> dsize dst \<and>
    writeFrame ops (if hasFlag m kCompressed then SyncFlush else Raw) c m
        (setSize (dsize dst - kChecksumSize) dst)
      = Some (Inr (c1, m1, \<lparr>before = before dst @ out,
                             dsize = dsize dst - kChecksumSize - length out\<rparr>)) \<and>
    codec_unflushedBytes ops c1 = 0 \<and>
    (hasFlag m kCompressed \<and> out \<noteq> [] \<longrightarrow>
       4 \<le> length out \<and> drop (length out - 4) out = syncFlushTrailer)"
  then have nonack: "\<not> isAck m" and fits: "length out + 4 \<le> dsize dst"
    and wf: "writeFrame ops (frameMode m) c m (setSize (dsize dst - kChecksumSize) dst)
             = Some (Inr (c1, m1, \<lparr>before = before dst @ out,
                                    dsize = dsize dst - 4 - length out\<rparr>))"
    and unfl: "codec_unflushedBytes ops c1 = 0"
    and tr: "hasFlag m kCompressed \<and> out \<noteq> [] \<longrightarrow>
       4 \<le> length out \<and> drop (length out - 4) out = syncFlushTrailer"
    by (simp_all add: frameMode_def kChecksumSize_def)
  have "nextFrameToSend ops c m dst = Some (Inr (frameResult ops m dst c1 m1 out))"
    unfolding nextFrameToSend_after_loop [OF nonack fits wf] using unfl tr by auto
  then show "\<exists>m' dst'.
         nextFrameToSend ops c m dst =
           Some (Inr (c1, m', dst',
                  (if hasMoreDataToSend (contents m1) then flags m OR kMoreComing else flags m),
                  [Progress (if hasMoreDataToSend (contents m1) then kSending
                             else if noReply m then kComplete else kAwaitingReply)
                     (ucast (uncompressedBytesSent m1)) 0])) \<and>
         contents m' = contents m1 \<and> uncompressedBytesSent m' = uncompressedBytesSent m1"
    by (simp add: frameResult_def Let_def sendProgress_def)
next
  assume a: "\<not> isAck m \<and> nextFrameToSend ops c m dst = Some (Inr (c', m', dst', fl, ev))"
  then obtain c1 m1 out where
    r: "(c', m', dst', fl, ev) = frameResult ops m dst c1 m1 out"
    using nextFrameToSend_Inr [of m ops c dst "(c', m', dst', fl, ev)"] by blast
  from r have m': "contents m' = contents m1" "uncompressedBytesSent m' = uncompressedBytesSent m1"
    by (simp_all add: frameResult_def Let_def)
  from r show fl: "fl = (if hasMoreDataToSend (contents m') then flags m OR kMoreComing else flags m)"
    unfolding m' by (simp add: frameResult_def Let_def)
  from r show "ev = [Progress (if hasMoreDataToSend (contents m') then kSending
                      else if noReply m then kComplete else kAwaitingReply)
              (ucast (uncompressedBytesSent m')) 0]"
    unfolding m' by (simp add: frameResult_def Let_def sendProgress_def)
  assume "\<not> hasFlag m kMoreComing"
  then show "(fl AND kMoreComing \<noteq> 0) = hasMoreDataToSend (contents m')"
    unfolding fl using moreComing_set [of "flags m"] by (simp add: hasFlag_def)
qed

theorem nextFrameToSend_flags_state_witness:
  "nextFrameToSend testCodec 0 smallRequest frameBuffer =
     Some (Inr (0,
       smallRequest\<lparr>contents := sentContents, uncompressedBytesSent := 3,
                     bytesSent := 7, unackedBytes := 7\<rparr>,
       \<lparr>before = [1, 2, 3, 0, 0, 0, 0], dsize = 16377\<rparr>,
       kRequestType, [Progress kAwaitingReply 3 0])) \<and>
   \<not> hasMoreDataToSend sentContents \<and> kRequestType AND kMoreComing = 0 \<and>
   nextFrameToSend testCodec 0 sixBytes tinyBuffer =
     Some (Inr (0,
       sixBytes\<lparr>contents := (contents sixBytes)\<lparr>unsentPayload := [5, 6]\<rparr>,
                 uncompressedBytesSent := 4, bytesSent := 8, unackedBytes := 8\<rparr>,
       \<lparr>before = [1, 2, 3, 4, 0, 0, 0, 0], dsize = 0\<rparr>,
       kRequestType OR kNoReply OR kMoreComing, [Progress kSending 4 0])) \<and>
   hasMoreDataToSend ((contents sixBytes)\<lparr>unsentPayload := [5, 6]\<rparr>) \<and>
   (kRequestType OR kNoReply OR kMoreComing) AND kMoreComing \<noteq> 0 \<and>
   (\<exists>m' dst'. nextFrameToSend testCodec 0 (smallRequest\<lparr>flags := kRequestType OR kNoReply\<rparr>)
        frameBuffer
      = Some (Inr (0, m', dst', kRequestType OR kNoReply, [Progress kComplete 3 0])))"
proof -
  note t = nextFrameToSend_flags_state
  let ?n = "smallRequest\<lparr>flags := kRequestType OR kNoReply\<rparr>"
  have a: "\<not> isAck smallRequest" "\<not> hasFlag smallRequest kMoreComing"
    "\<not> isAck sixBytes" "\<not> hasFlag sixBytes kMoreComing" "\<not> isAck ?n"
    by (simp_all add: smallRequest_def sixBytes_def eval_defs)
  from t [of testCodec 0 smallRequest frameBuffer _ _ _ 0
      "smallRequest\<lparr>contents := sentContents, uncompressedBytesSent := 3,
                     bytesSent := 7, unackedBytes := 7\<rparr>"
      "\<lparr>before = [1, 2, 3, 0, 0, 0, 0], dsize = 16377\<rparr>"
      kRequestType "[Progress kAwaitingReply 3 0]"] a smallRequest_frame
  have 1: "\<not> hasMoreDataToSend sentContents \<and> kRequestType AND kMoreComing = 0"
    by (simp add: smallRequest_def eval_defs)
  from t [of testCodec 0 sixBytes tinyBuffer _ _ _ 0
      "sixBytes\<lparr>contents := (contents sixBytes)\<lparr>unsentPayload := [5, 6]\<rparr>,
                 uncompressedBytesSent := 4, bytesSent := 8, unackedBytes := 8\<rparr>"
      "\<lparr>before = [1, 2, 3, 4, 0, 0, 0, 0], dsize = 0\<rparr>"
      "kRequestType OR kNoReply OR kMoreComing" "[Progress kSending 4 0]"] a sixBytes_frame
  have 2: "hasMoreDataToSend ((contents sixBytes)\<lparr>unsentPayload := [5, 6]\<rparr>) \<and>
      (kRequestType OR kNoReply OR kMoreComing) AND kMoreComing \<noteq> 0"
    by (simp add: sixBytes_def eval_defs)
  have loop: "writeFrame testCodec (if hasFlag ?n kCompressed then SyncFlush else Raw) 0 ?n
       (setSize (dsize frameBuffer - kChecksumSize) frameBuffer)
     = Some (Inr (0, ?n\<lparr>contents := sentContents, uncompressedBytesSent := 3\<rparr>,
                  \<lparr>before = before frameBuffer @ [1, 2, 3],
                   dsize = dsize frameBuffer - kChecksumSize - length [1, 2, 3 :: byte]\<rparr>))"
  proof -
    let ?m = "?n\<lparr>contents := (contents smallRequest)\<lparr>unsentPayload := []\<rparr>,
                           uncompressedBytesSent := 3\<rparr>"
    have s1: "frameStep testCodec Raw 0 ?n \<lparr>before = [], dsize = 16380\<rparr>
             = Again 0 ?m \<lparr>before = [1, 2, 3], dsize = 16377\<rparr>"
      by (simp add: smallRequest_def eval_defs)
    have s2: "frameStep testCodec Raw 0 ?m \<lparr>before = [1, 2, 3], dsize = 16377\<rparr>
             = Stop (Inr (0, ?n\<lparr>contents := sentContents, uncompressedBytesSent := 3\<rparr>,
                  \<lparr>before = [1, 2, 3], dsize = 16377\<rparr>))"
      by (simp add: smallRequest_def sentContents_def eval_defs)
    show ?thesis
      using writeFrame_Again [OF s1] writeFrame_Stop [OF s2]
      by (simp add: smallRequest_def frameBuffer_def eval_defs)
  qed
  have "\<exists>m' dst'.
         nextFrameToSend testCodec 0 ?n frameBuffer =
           Some (Inr (0, m', dst',
                  (if hasMoreDataToSend (contents (?n\<lparr>contents := sentContents,
                                                       uncompressedBytesSent := 3\<rparr>))
                   then flags ?n OR kMoreComing else flags ?n),
                  [Progress (if hasMoreDataToSend (contents (?n\<lparr>contents := sentContents,
                                                       uncompressedBytesSent := 3\<rparr>))
                             then kSending
                             else if noReply ?n then kComplete else kAwaitingReply)
                     (ucast (uncompressedBytesSent (?n\<lparr>contents := sentContents,
                                                       uncompressedBytesSent := 3\<rparr>))) 0])) \<and>
         contents m' = contents (?n\<lparr>contents := sentContents, uncompressedBytesSent := 3\<rparr>) \<and>
         uncompressedBytesSent m'
           = uncompressedBytesSent (?n\<lparr>contents := sentContents, uncompressedBytesSent := 3\<rparr>)"
  proof (rule t [of testCodec 0 ?n frameBuffer "[1, 2, 3]" 0
      "?n\<lparr>contents := sentContents, uncompressedBytesSent := 3\<rparr>",
      THEN conjunct2, THEN conjunct1, THEN mp], intro conjI)
    show "\<not> isAck ?n" by (rule a)
    show "length [1, 2, 3 :: byte] + kChecksumSize \<le> dsize frameBuffer"
      by (simp add: frameBuffer_def kChecksumSize_def)
    show "writeFrame testCodec (if hasFlag ?n kCompressed then SyncFlush else Raw) 0 ?n
       (setSize (dsize frameBuffer - kChecksumSize) frameBuffer)
     = Some (Inr (0, ?n\<lparr>contents := sentContents, uncompressedBytesSent := 3\<rparr>,
                  \<lparr>before = before frameBuffer @ [1, 2, 3],
                   dsize = dsize frameBuffer - kChecksumSize - length [1, 2, 3 :: byte]\<rparr>))"
      by (rule loop)
    show "codec_unflushedBytes testCodec 0 = 0" by (simp add: testCodec_simps)
    show "hasFlag ?n kCompressed \<and> [1, 2, 3 :: byte] \<noteq> [] \<longrightarrow>
       4 \<le> length [1, 2, 3 :: byte] \<and>
       drop (length [1, 2, 3 :: byte] - 4) [1, 2, 3] = syncFlushTrailer"
      by (simp add: smallRequest_def eval_defs)
  qed
  then have 3: "\<exists>m' dst'. nextFrameToSend testCodec 0 ?n frameBuffer
      = Some (Inr (0, m', dst', kRequestType OR kNoReply, [Progress kComplete 3 0]))"
    by (auto simp: smallRequest_def sentContents_def hasMoreDataToSend_def eval_defs)
  from 1 2 3 smallRequest_frame sixBytes_frame show ?thesis by simp
qed


text \<open>
  Claim C5. For a message that is not an ack and has the \<open>Compressed\<close> flag, the loop runs
  the codec in \<open>SyncFlush\<close> mode on \<open>dst\<close> shortened by the 4 bytes of the checksum.
  Let \<open>out\<close> be what the codec wrote when the loop ends. If the codec has unflushed bytes
  the call throws; if \<open>out\<close> is not empty and does not end with \<open>00 00 FF FF\<close> the
  \<open>Assert\<close> fails; in every other case the call returns normally, and the frame is
  \<open>out\<close> without its last 4 bytes, followed by the 4 bytes of the checksum. An empty
  \<open>out\<close> has nothing stripped: the frame is the checksum alone. The frame fits into
  \<open>dst\<close>: the room kept free at the start of the call holds the checksum. Conversely,
  every normal return comes about in this way.
\<close>

theorem compressed_frame_strips_trailer:
  "(codec_progress ops \<longrightarrow> nextFrameToSend ops c m dst \<noteq> None) \<and>
   (\<not> isAck m \<and> hasFlag m kCompressed \<and> length out + kChecksumSize \<le> dsize dst \<and>
    writeFrame ops SyncFlush c m (setSize (dsize dst - kChecksumSize) dst)
      = Some (Inr (c1, m1, \<lparr>before = before dst @ out,
                             dsize = dsize dst - kChecksumSize - length out\<rparr>)) \<longrightarrow>
      nextFrameToSend ops c m dst =
        (if codec_unflushedBytes ops c1 > 0 then Some (Inl CompressionBufferOverflow)
         else if out \<noteq> [] \<and>
                 \<not> (4 \<le> length out \<and> drop (length out - 4) out = syncFlushTrailer)
         then Some (Inl AssertionFailed)
         else Some (Inr (c1,
                m1\<lparr>bytesSent := bytesSent m1
                       + of_nat (length (if out = [] then [] else take (length out - 4) out) + 4),
                    unackedBytes := unackedBytes m1
                       + of_nat (length (if out = [] then [] else take (length out - 4) out) + 4)\<rparr>,
                \<lparr>before = before dst @ (if out = [] then [] else take (length out - 4) out)
                            @ enc32 (codec_checksum ops c1),
                 dsize = dsize dst
                   - (length (if out = [] then [] else take (length out - 4) out) + 4)\<rparr>,
                (if hasMoreDataToSend (contents m1) then flags m OR kMoreComing else flags m),
                [Progress (if hasMoreDataToSend (contents m1) then kSending
                           else if noReply m then kComplete else kAwaitingReply)
                   (ucast (uncompressedBytesSent m1)) 0])))) \<and>
   (\<not> isAck m \<and> hasFlag m kCompressed \<and>
    nextFrameToSend ops c m dst = Some (Inr (c', m', dst', fl, ev)) \<longrightarrow>
      (\<exists>m1 out.
         writeFrame ops SyncFlush c m (setSize (dsize dst - kChecksumSize) dst)
           = Some (Inr (c', m1, \<lparr>before = before dst @ out,
                                  dsize = dsize dst - kChecksumSize - length out\<rparr>)) \<and>
         (out \<noteq> [] \<longrightarrow> 4 \<le> length out \<and> drop (length out - 4) out = syncFlushTrailer) \<and>
         before dst' = before dst @ (if out = [] then [] else take (length out - 4) out)
                         @ enc32 (codec_checksum ops c') \<and>
         length (enc32 (codec_checksum ops c')) = 4 \<and>
         dsize dst' + length (if out = [] then [] else take (length out - 4) out) + 4
           = dsize dst))"
proof (intro conjI impI)
  assume "codec_progress ops"
  then show "nextFrameToSend ops c m dst \<noteq> None" by (rule nextFrameToSend_returns)
next
  assume a: "\<not> isAck m \<and> hasFlag m kCompressed \<and> length out + kChecksumSize \<le> dsize dst \<and>
    writeFrame ops SyncFlush c m (setSize (dsize dst - kChecksumSize) dst)
      = Some (Inr (c1, m1, \<lparr>before = before dst @ out,
                             dsize = dsize dst - kChecksumSize - length out\<rparr>))"
  then have nonack: "\<not> isAck m" and comp: "hasFlag m kCompressed"
    and fits: "length out + 4 \<le> dsize dst"
    and wf: "writeFrame ops (frameMode m) c m (setSize (dsize dst - kChecksumSize) dst)
             = Some (Inr (c1, m1, \<lparr>before = before dst @ out,
                                    dsize = dsize dst - 4 - length out\<rparr>))"
    by (simp_all add: frameMode_def kChecksumSize_def)
  show "nextFrameToSend ops c m dst =
        (if codec_unflushedBytes ops c1 > 0 then Some (Inl CompressionBufferOverflow)
         else if out \<noteq> [] \<and>
                 \<not> (4 \<le> length out \<and> drop (length out - 4) out = syncFlushTrailer)
         then Some (Inl AssertionFailed)
         else Some (Inr (c1,
                m1\<lparr>bytesSent := bytesSent m1
                       + of_nat (length (if out = [] then [] else take (length out - 4) out) + 4),
                    unackedBytes := unackedBytes m1
                       + of_nat (length (if out = [] then [] else take (length out - 4) out) + 4)\<rparr>,
                \<lparr>before = before dst @ (if out = [] then [] else take (length out - 4) out)
                            @ enc32 (codec_checksum ops c1),
                 dsize = dsize dst
                   - (length (if out = [] then [] else take (length out - 4) out) + 4)\<rparr>,
                (if hasMoreDataToSend (contents m1) then flags m OR kMoreComing else flags m),
                [Progress (if hasMoreDataToSend (contents m1) then kSending
                           else if noReply m then kComplete else kAwaitingReply)
                   (ucast (uncompressedBytesSent m1)) 0])))"
    unfolding nextFrameToSend_after_loop [OF nonack fits wf]
    using comp
    by (simp add: frameResult_def framePayload_def Let_def kChecksumSize_def sendProgress_def)
next
  assume a: "\<not> isAck m \<and> hasFlag m kCompressed \<and>
    nextFrameToSend ops c m dst = Some (Inr (c', m', dst', fl, ev))"
  then obtain c1 m1 out where
    wf: "writeFrame ops (frameMode m) c m (setSize (dsize dst - kChecksumSize) dst)
             = Some (Inr (c1, m1, \<lparr>before = before dst @ out,
                                    dsize = dsize dst - 4 - length out\<rparr>))"
    and fits: "length out + 4 \<le> dsize dst"
    and tr: "hasFlag m kCompressed \<and> out \<noteq> [] \<longrightarrow>
              4 \<le> length out \<and> drop (length out - 4) out = syncFlushTrailer"
    and r: "(c', m', dst', fl, ev) = frameResult ops m dst c1 m1 out"
    using nextFrameToSend_Inr [of m ops c dst "(c', m', dst', fl, ev)"] by blast
  from a have comp: "hasFlag m kCompressed" by simp
  from r have c1: "c1 = c'" by (simp add: frameResult_def Let_def)
  have pl: "framePayload True out = (if out = [] then [] else take (length out - 4) out)"
    by (simp add: framePayload_def)
  have "writeFrame ops SyncFlush c m (setSize (dsize dst - kChecksumSize) dst)
           = Some (Inr (c', m1, \<lparr>before = before dst @ out,
                                  dsize = dsize dst - kChecksumSize - length out\<rparr>))"
    using wf comp c1 by (simp add: frameMode_def kChecksumSize_def)
  moreover have "out \<noteq> [] \<longrightarrow> 4 \<le> length out \<and> drop (length out - 4) out = syncFlushTrailer"
    using tr comp by simp
  moreover have "before dst' = before dst @ (if out = [] then [] else take (length out - 4) out)
                         @ enc32 (codec_checksum ops c')"
    using r comp c1 pl by (simp add: frameResult_def Let_def)
  moreover have "dsize dst' + length (if out = [] then [] else take (length out - 4) out) + 4
           = dsize dst"
    using r comp fits tr pl by (auto simp add: frameResult_def Let_def kChecksumSize_def)
  ultimately show "\<exists>m1 out.
         writeFrame ops SyncFlush c m (setSize (dsize dst - kChecksumSize) dst)
           = Some (Inr (c', m1, \<lparr>before = before dst @ out,
                                  dsize = dsize dst - kChecksumSize - length out\<rparr>)) \<and>
         (out \<noteq> [] \<longrightarrow> 4 \<le> length out \<and> drop (length out - 4) out = syncFlushTrailer) \<and>
         before dst' = before dst @ (if out = [] then [] else take (length out - 4) out)
                         @ enc32 (codec_checksum ops c') \<and>
         length (enc32 (codec_checksum ops c')) = 4 \<and>
         dsize dst' + length (if out = [] then [] else take (length out - 4) out) + 4
           = dsize dst"
    using length_enc32 by blast
qed

theorem compressed_frame_strips_trailer_witness:
  "nextFrameToSend testCodec 0 compressedRequest frameBuffer =
     Some (Inr (0,
       compressedRequest\<lparr>contents := sentContents, uncompressedBytesSent := 3,
                     bytesSent := 7, unackedBytes := 7\<rparr>,
       \<lparr>before = [1, 2, 3, 0, 0, 0, 0], dsize = 16377\<rparr>,
       kRequestType OR kCompressed, [Progress kAwaitingReply 3 0])) \<and>
   nextFrameToSend testCodec 0 emptyCompressed frameBuffer =
     Some (Inr (0, emptyCompressed\<lparr>bytesSent := 4, unackedBytes := 4\<rparr>,
       \<lparr>before = [0, 0, 0, 0], dsize = 16380\<rparr>,
       kRequestType OR kCompressed, [Progress kAwaitingReply 0 0]))"
proof -
  note t = compressed_frame_strips_trailer
  have a1: "\<not> isAck compressedRequest" and b1: "hasFlag compressedRequest kCompressed"
    and a2: "\<not> isAck emptyCompressed" and b2: "hasFlag emptyCompressed kCompressed"
    by (simp_all add: compressedRequest_def emptyCompressed_def eval_defs)
  have f1: "length [1, 2, 3, 0, 0, 0xFF, 0xFF :: byte] + kChecksumSize \<le> dsize frameBuffer"
    and f2: "length ([] :: byte list) + kChecksumSize \<le> dsize frameBuffer"
    by (simp_all add: frameBuffer_def kChecksumSize_def)
  from t [of testCodec 0 compressedRequest frameBuffer "[1, 2, 3, 0, 0, 0xFF, 0xFF]" 0
      "compressedRequest\<lparr>contents := sentContents, uncompressedBytesSent := 3\<rparr>"]
    a1 b1 f1 compressedRequest_syncFlush
  have 1: "nextFrameToSend testCodec 0 compressedRequest frameBuffer =
     Some (Inr (0,
       compressedRequest\<lparr>contents := sentContents, uncompressedBytesSent := 3,
                     bytesSent := 7, unackedBytes := 7\<rparr>,
       \<lparr>before = [1, 2, 3, 0, 0, 0, 0], dsize = 16377\<rparr>,
       kRequestType OR kCompressed, [Progress kAwaitingReply 3 0]))"
    by (simp add: compressedRequest_def sentContents_def frameBuffer_def syncFlushTrailer_def
        enc32_def hasMoreDataToSend_def eval_defs)
  from t [of testCodec 0 emptyCompressed frameBuffer "[]" 0 emptyCompressed]
    a2 b2 f2 emptyCompressed_loop
  have 2: "nextFrameToSend testCodec 0 emptyCompressed frameBuffer =
     Some (Inr (0, emptyCompressed\<lparr>bytesSent := 4, unackedBytes := 4\<rparr>,
       \<lparr>before = [0, 0, 0, 0], dsize = 16380\<rparr>,
       kRequestType OR kCompressed, [Progress kAwaitingReply 0 0]))"
    by (simp add: emptyCompressed_def frameBuffer_def
        enc32_def hasMoreDataToSend_def eval_defs)
  from 1 2 show ?thesis by simp
qed


section \<open>The transmission counters\<close>

lemma nextFrameToSend_counters:
  assumes nonack: "\<not> isAck m"
    and ok: "nextFrameToSend ops c m \<lparr>before = [], dsize = n\<rparr> = Some (Inr (c', m', dst', fl, ev))"
  shows "flags m' = flags m \<and>
         bytesSent m' = bytesSent m + of_nat (length (before dst')) \<and>
         unackedBytes m' = unackedBytes m + of_nat (length (before dst'))"
proof -
  from nextFrameToSend_Inr [OF nonack ok] obtain c1 m1 out where
    k: "keeps m m1" and r: "(c', m', dst', fl, ev) = frameResult ops m \<lparr>before = [], dsize = n\<rparr> c1 m1 out"
    by blast
  from r k show ?thesis
    by (simp add: frameResult_def Let_def keeps_def length_enc32 kChecksumSize_def)
qed

lemma nextFrameToSend_ack_counters:
  assumes "isAck m"
    and ok: "nextFrameToSend ops c m dst = Some (Inr (c', m', dst', fl, ev))"
  shows "flags m' = flags m \<and> unackedBytes m' = unackedBytes m"
  using assms
  by (auto simp: nextFrameToSend_def Let_def split: option.splits)

lemma receivedAck_flags: "flags (receivedAck n m) = flags m"
  by (simp add: receivedAck_def)

lemma isAck_cong: "flags m' = flags m \<Longrightarrow> isAck m' = isAck m"
  by (simp add: isAck_def type_def)

lemma run_ack:
  "run ops c m calls = Some (Inr (c', m', frames)) \<Longrightarrow> isAck m \<Longrightarrow>
     unackedBytes m' \<le> unackedBytes m"
proof (induction calls arbitrary: c m frames)
  case Nil
  then show ?case by simp
next
  case (Cons call calls)
  show ?case
  proof (cases call)
    case (ReceivedAck k)
    with Cons.prems have r: "run ops c (receivedAck k m) calls = Some (Inr (c', m', frames))"
      by simp
    have "isAck (receivedAck k m)" using Cons.prems(2) isAck_cong [OF receivedAck_flags] by blast
    from Cons.IH [OF r this] show ?thesis
      by (simp add: receivedAck_def split: if_splits)
  next
    case (NextFrame k)
    with Cons.prems obtain c1 m1 dst1 fl ev fs where
      nf: "nextFrameToSend ops c m \<lparr>before = [], dsize = k\<rparr> = Some (Inr (c1, m1, dst1, fl, ev))"
      and r: "run ops c1 m1 calls = Some (Inr (c', m', fs))"
      by (auto split: option.splits sum.splits)
    from nextFrameToSend_ack_counters [OF Cons.prems(2) nf]
    have f: "flags m1 = flags m" and u: "unackedBytes m1 = unackedBytes m" by auto
    have "isAck m1" using Cons.prems(2) isAck_cong [OF f] by blast
    from Cons.IH [OF r this] u show ?thesis by simp
  qed
qed

lemma run_nonack:
  "run ops c m calls = Some (Inr (c', m', frames)) \<Longrightarrow> \<not> isAck m \<Longrightarrow>
   unat (unackedBytes m) \<le> unat (bytesSent m) \<Longrightarrow>
   unat (bytesSent m) + sum_list (map length frames) < 2 ^ 32 \<Longrightarrow>
     unat (unackedBytes m') \<le> unat (bytesSent m') \<and>
     unat (bytesSent m') = unat (bytesSent m) + sum_list (map length frames)"
proof (induction calls arbitrary: c m frames)
  case Nil
  then show ?case by simp
next
  case (Cons call calls)
  show ?case
  proof (cases call)
    case (ReceivedAck k)
    with Cons.prems have r: "run ops c (receivedAck k m) calls = Some (Inr (c', m', frames))"
      by simp
    have a: "\<not> isAck (receivedAck k m)"
      using Cons.prems(2) isAck_cong [OF receivedAck_flags] by blast
    have b: "bytesSent (receivedAck k m) = bytesSent m" by (simp add: receivedAck_def)
    have "unackedBytes (receivedAck k m) \<le> unackedBytes m" by (simp add: receivedAck_def)
    then have u: "unat (unackedBytes (receivedAck k m)) \<le> unat (bytesSent (receivedAck k m))"
      using Cons.prems(3) b by (simp add: word_le_nat_alt)
    from Cons.IH [OF r a u] Cons.prems(4) b show ?thesis by simp
  next
    case (NextFrame k)
    with Cons.prems(1) obtain c1 m1 dst1 fl ev fs where
      nf: "nextFrameToSend ops c m \<lparr>before = [], dsize = k\<rparr> = Some (Inr (c1, m1, dst1, fl, ev))"
      and r: "run ops c1 m1 calls = Some (Inr (c', m', fs))"
      and fr: "frames = before dst1 # fs"
      by (auto split: option.splits sum.splits)
    let ?n = "length (before dst1)"
    from nextFrameToSend_counters [OF Cons.prems(2) nf]
    have f: "flags m1 = flags m" and b: "bytesSent m1 = bytesSent m + of_nat ?n"
      and u: "unackedBytes m1 = unackedBytes m + of_nat ?n" by auto
    have a: "\<not> isAck m1" using Cons.prems(2) isAck_cong [OF f] by blast
    from Cons.prems(4) fr have small: "unat (bytesSent m) + ?n < 2 ^ 32" by simp
    then have b': "unat (bytesSent m1) = unat (bytesSent m) + ?n"
      unfolding b by (simp add: unat_word_ariths unat_of_nat)
    from small Cons.prems(3) have "unat (unackedBytes m) + ?n < 2 ^ 32" by simp
    then have u': "unat (unackedBytes m1) = unat (unackedBytes m) + ?n"
      unfolding u by (simp add: unat_word_ariths unat_of_nat)
    from b' u' Cons.prems(3) have le: "unat (unackedBytes m1) \<le> unat (bytesSent m1)" by simp
    from Cons.prems(4) fr b' have "unat (bytesSent m1) + sum_list (map length fs) < 2 ^ 32"
      by simp
    from Cons.IH [OF r a le this] b' fr show ?thesis by simp
  qed
qed

lemma run_returns:
  assumes "codec_progress ops"
  shows "run ops c m calls \<noteq> None"
proof (induction calls arbitrary: c m)
  case Nil
  show ?case by simp
next
  case (Cons call calls)
  show ?case
  proof (cases call)
    case (ReceivedAck k)
    with Cons show ?thesis by simp
  next
    case (NextFrame k)
    from nextFrameToSend_returns [OF assms] obtain r where
      r: "nextFrameToSend ops c m \<lparr>before = [], dsize = k\<rparr> = Some r" by blast
    show ?thesis
    proof (cases r)
      case (Inl e)
      with r NextFrame show ?thesis by simp
    next
      case (Inr t)
      obtain c1 m1 dst1 fl ev where t: "t = (c1, m1, dst1, fl, ev)" by (cases t)
      from Cons [of c1 m1] obtain q where "run ops c1 m1 calls = Some q" by blast
      with r Inr t NextFrame show ?thesis by (cases q) auto
    qed
  qed
qed

text \<open>
  Claim C1, as amended. Take a freshly constructed message and any sequence of
  \<open>nextFrameToSend\<close> and \<open>receivedAck\<close> calls. With a codec that makes progress
  every call returns or throws. When all calls have returned, then as long as the frames
  written so far hold fewer than \<open>2^32\<close> bytes in total, \<open>unackedBytes\<close> is at least 0
  and at most \<open>bytesSent\<close>. (Both counters are \<open>uint32_t\<close>; the bound keeps
  \<open>bytesSent\<close> from wrapping.)
\<close>

theorem unackedBytes_le_bytesSent:
  "(codec_progress ops \<longrightarrow> run ops c (newMessageOut f p src k) calls \<noteq> None) \<and>
   (run ops c (newMessageOut f p src k) calls = Some (Inr (c', m', frames)) \<and>
    sum_list (map length frames) < 2 ^ 32 \<longrightarrow>
      0 \<le> unat (unackedBytes m') \<and> unat (unackedBytes m') \<le> unat (bytesSent m'))"
proof (intro conjI impI)
  assume "codec_progress ops"
  then show "run ops c (newMessageOut f p src k) calls \<noteq> None" by (rule run_returns)
next
  let ?m = "newMessageOut f p src k"
  assume a: "run ops c ?m calls = Some (Inr (c', m', frames)) \<and>
    sum_list (map length frames) < 2 ^ 32"
  then have r: "run ops c ?m calls = Some (Inr (c', m', frames))"
    and small: "sum_list (map length frames) < 2 ^ 32" by simp_all
  show "0 \<le> unat (unackedBytes m')" by simp
  show "unat (unackedBytes m') \<le> unat (bytesSent m')"
  proof (cases "isAck ?m")
    case True
    from run_ack [OF r True] have "unackedBytes m' = 0" by (simp add: newMessageOut_def)
    then show ?thesis by simp
  next
    case False
    from run_nonack [OF r False] small show ?thesis by (simp add: newMessageOut_def)
  qed
qed

theorem unackedBytes_le_bytesSent_witness:
  "run testCodec 0 (newMessageOut kRequestType [1, 2, 3] None 1) [NextFrame 16384, ReceivedAck 4]
     = Some (Inr (0, smallRequest\<lparr>contents := sentContents, uncompressedBytesSent := 3,
                     bytesSent := 7, unackedBytes := 3\<rparr>, [[1, 2, 3, 0, 0, 0, 0]])) \<and>
   sum_list (map length [[1, 2, 3, 0, 0, 0, 0 :: byte]]) < 2 ^ 32 \<and>
   unat (3 :: uint32) \<le> unat (7 :: uint32)"
proof -
  have r: "run testCodec 0 (newMessageOut kRequestType [1, 2, 3] None 1) [NextFrame 16384, ReceivedAck 4]
     = Some (Inr (0, smallRequest\<lparr>contents := sentContents, uncompressedBytesSent := 3,
                     bytesSent := 7, unackedBytes := 3\<rparr>, [[1, 2, 3, 0, 0, 0, 0]]))"
    using smallRequest_frame
    by (simp add: smallRequest_def frameBuffer_def receivedAck_def)
  have s: "sum_list (map length [[1, 2, 3, 0, 0, 0, 0 :: byte]]) < 2 ^ 32" by simp
  from unackedBytes_le_bytesSent [of testCodec 0 kRequestType "[1, 2, 3]" None 1
      "[NextFrame 16384, ReceivedAck 4]" 0
      "smallRequest\<lparr>contents := sentContents, uncompressedBytesSent := 3,
                     bytesSent := 7, unackedBytes := 3\<rparr>" "[[1, 2, 3, 0, 0, 0, 0]]"] r s
  have "unat (3 :: uint32) \<le> unat (7 :: uint32)" by simp
  with r s show ?thesis by blast
qed


text \<open>
  Claim C1 as stated fails once \<open>bytesSent\<close> wraps. A request of 4293918720 bytes is
  sent through the pass-through codec in frames of 16384 bytes. After 262143 frames the
  peer has acknowledged all \<open>4294950912 = 2^32 - 16384\<close> bytes, so \<open>unackedBytes\<close> is
  0; the next frame takes \<open>bytesSent\<close> to \<open>2^32\<close>, which wraps to 0, and
  \<open>unackedBytes\<close> to 16384. The same happens in three calls with buffers of
  \<open>2^31 + 4\<close> bytes: a request of \<open>2^32 - 1\<close> bytes goes out in two frames with an
  acknowledgement between them and ends with \<open>bytesSent = 7\<close> and
  \<open>unackedBytes = 2^31 + 3\<close>.
\<close>

theorem unackedBytes_wrap_counterexample:
  "run testCodec 0 (newMessageOut kRequestType (replicate 4293918720 0) None 1)
       (replicate 262143 (NextFrame 16384) @ [ReceivedAck 4294950912, NextFrame 16384])
     = Some (Inr (0, streamed 262144 16384, replicate 262143 fullFrame @ [fullFrame])) \<and>
   bytesSent (streamed 262144 16384) = 0 \<and> unackedBytes (streamed 262144 16384) = 16384 \<and>
   \<not> unackedBytes (streamed 262144 16384) \<le> bytesSent (streamed 262144 16384) \<and>
   run testCodec 0 (newMessageOut kRequestType (replicate 4294967295 0) None 1)
       [NextFrame 2147483652, ReceivedAck 2147483652, NextFrame 2147483652]
     = Some (Inr (0, wrappedMessage,
                  [replicate 2147483648 0 @ [0, 0, 0, 0], replicate 2147483647 0 @ [0, 0, 0, 0]])) \<and>
   bytesSent wrappedMessage = 7 \<and> unackedBytes wrappedMessage = 2147483651 \<and>
   \<not> unackedBytes wrappedMessage \<le> bytesSent wrappedMessage"
  using wrap_run streamed_wrap streamed_wrapped
  by (simp add: wrapCalls_def bigMessage_def wrappedMessage_def)

section \<open>receivedAck\<close>

text \<open>
  Claim C2, as amended. \<open>receivedAck(c)\<close> is guarded by \<open>c \<le> bytesSent\<close>: under the
  guard it sets \<open>unackedBytes\<close> to the minimum of \<open>unackedBytes\<close> and
  \<open>bytesSent - c\<close> (read as numbers, the subtraction does not wrap); for a count beyond
  \<open>bytesSent\<close> it leaves the message as it is. In both cases \<open>unackedBytes\<close> does not
  grow and no other field changes.
\<close>

theorem receivedAck_guarded:
  "(c \<le> bytesSent m \<longrightarrow>
      unat (unackedBytes (receivedAck c m))
        = min (unat (unackedBytes m)) (unat (bytesSent m) - unat c)) \<and>
   (bytesSent m < c \<longrightarrow> receivedAck c m = m) \<and>
   unackedBytes (receivedAck c m) \<le> unackedBytes m \<and>
   receivedAck c m = m\<lparr>unackedBytes := unackedBytes (receivedAck c m)\<rparr>"
proof -
  have "unat (min (unackedBytes m) (bytesSent m - c))
          = min (unat (unackedBytes m)) (unat (bytesSent m) - unat c)"
    if "c \<le> bytesSent m"
    using that by (simp add: min_def word_le_nat_alt unat_sub)
  then show ?thesis
    by (auto simp: receivedAck_def)
qed

theorem receivedAck_guarded_witness:
  "unat (unackedBytes (receivedAck 70 ackedMessage)) = 30 \<and>
   unat (unackedBytes (receivedAck 20 ackedMessage)) = 50 \<and>
   receivedAck 200 ackedMessage = ackedMessage"
  using receivedAck_guarded [of 70 ackedMessage] receivedAck_guarded [of 20 ackedMessage]
    receivedAck_guarded [of 200 ackedMessage]
  by (simp add: ackedMessage_def newMessageOut_def)

text \<open>
  Claim C2 as stated fails for a count beyond \<open>bytesSent\<close>, where the guard keeps
  \<open>unackedBytes\<close> as it is. On \<open>wrappedMessage\<close> (lemma \<open>wrap_run\<close> reaches it from
  a fresh message), with \<open>bytesSent = 7\<close> and \<open>unackedBytes = 2^31 + 3\<close>, the count
  \<open>2^31 + 6\<close> makes the
  32-bit difference \<open>bytesSent - c\<close> equal to \<open>2^31 + 1\<close>, below \<open>unackedBytes\<close>.
  Read as numbers, the difference is negative already for a fresh message and the
  count 1.
\<close>

theorem receivedAck_unguarded_counterexample:
  "unackedBytes (receivedAck 2147483654 wrappedMessage)
     \<noteq> min (unackedBytes wrappedMessage) (bytesSent wrappedMessage - 2147483654) \<and>
   int (unat (unackedBytes (receivedAck 1 (newMessageOut kRequestType [] None 1))))
     \<noteq> min (int (unat (unackedBytes (newMessageOut kRequestType [] None 1))))
           (int (unat (bytesSent (newMessageOut kRequestType [] None 1))) - int (unat (1 :: uint32)))"
  by (simp add: receivedAck_def newMessageOut_def wrappedMessage_def bigMessage_def)

section \<open>The data source\<close>

text \<open>
  Claim C3, as amended. When nothing is left unsent of the payload and of the buffer,
  \<open>dataToSend\<close> calls the data source with a buffer of \<open>kDataBufferSize\<close> (16384)
  bytes. For a call that returns between zero and that many bytes (a negative return is
  not covered), the bytes become the unsent data, and the source is dropped exactly when
  the call returned fewer bytes than the buffer holds, zero included. After a call that
  filled the buffer the source is kept: \<open>hasMoreDataToSend\<close> holds even when these bytes
  are consumed, and the next \<open>dataToSend\<close> calls the source again and hands out its next
  answer. After a call that returned fewer bytes, \<open>hasMoreDataToSend\<close> holds while some
  of them are unsent and no longer once they are consumed, and the next \<open>dataToSend\<close>
  makes no call.
\<close>

theorem dataSource_short_read:
  "unsentPayload c = [] \<and> unsentDataBuffer c = [] \<and> dataSource c = Some src \<and>
   (dataBuffer c = None \<or> dataBuffer c = Some kDataBufferSize) \<and>
   src 0 kDataBufferSize = Wrote bs \<and> length bs \<le> kDataBufferSize \<longrightarrow>
     readFromDataSource c =
       Some (c\<lparr>dataSource := (if length bs < kDataBufferSize then None
                                else Some (\<lambda>k. src (Suc k))),
               dataBuffer := Some kDataBufferSize, unsentDataBuffer := bs\<rparr>) \<and>
     (\<exists>c'. dataToSend c = Some (False, c') \<and>
        c' = c\<lparr>payload := [],
               dataSource := (if length bs < kDataBufferSize then None
                              else Some (\<lambda>k. src (Suc k))),
               dataBuffer := (if bs = [] then None else Some kDataBufferSize),
               unsentDataBuffer := bs\<rparr> \<and>
        (dataSource c' = None) = (length bs < kDataBufferSize) \<and>
        hasMoreDataToSend c' = (bs \<noteq> []) \<and>
        (length bs = kDataBufferSize \<longrightarrow>
           hasMoreDataToSend (consume False (length bs) c') \<and>
           (\<forall>bs2. src 1 kDataBufferSize = Wrote bs2 \<and> length bs2 \<le> kDataBufferSize \<longrightarrow>
              dataToSend (consume False (length bs) c') =
                Some (False,
                  c'\<lparr>dataSource := (if length bs2 < kDataBufferSize then None
                                      else Some (\<lambda>k. src (Suc (Suc k)))),
                     dataBuffer := (if bs2 = [] then None else Some kDataBufferSize),
                     unsentDataBuffer := bs2\<rparr>))) \<and>
        (length bs < kDataBufferSize \<longrightarrow>
           \<not> hasMoreDataToSend (consume False (length bs) c') \<and>
           dataToSend (consume False (length bs) c')
             = Some (False, consume False (length bs) c')))"
  by (auto simp: readFromDataSource_def dataToSend_def Let_def hasMoreDataToSend_def
      consume_def kDataBufferSize_def)


theorem dataSource_short_read_witness:
  "(\<exists>c'. dataToSend (newContents [] (Some fullSource)) = Some (False, c') \<and>
      unsentDataBuffer c' = replicate 16384 0 \<and> dataSource c' \<noteq> None \<and>
      hasMoreDataToSend (consume False 16384 c') \<and>
      (\<exists>c2. dataToSend (consume False 16384 c') = Some (False, c2) \<and>
         unsentDataBuffer c2 = replicate 16384 1 \<and> dataSource c2 \<noteq> None)) \<and>
   (\<exists>c'. dataToSend (newContents [] (Some shortSource)) = Some (False, c') \<and>
      unsentDataBuffer c' = replicate 100 1 \<and> dataSource c' = None \<and>
      hasMoreDataToSend c' \<and> \<not> hasMoreDataToSend (consume False 100 c') \<and>
      dataToSend (consume False 100 c') = Some (False, consume False 100 c')) \<and>
   (\<exists>c'. dataToSend (newContents [] (Some emptySource)) = Some (False, c') \<and>
      dataSource c' = None \<and> \<not> hasMoreDataToSend c')"
proof -
  note t = dataSource_short_read
  from t [of "newContents [] (Some fullSource)" fullSource "replicate 16384 0"]
  have 1: "\<exists>c'. dataToSend (newContents [] (Some fullSource)) = Some (False, c') \<and>
      unsentDataBuffer c' = replicate 16384 0 \<and> dataSource c' \<noteq> None \<and>
      hasMoreDataToSend (consume False 16384 c') \<and>
      (\<exists>c2. dataToSend (consume False 16384 c') = Some (False, c2) \<and>
         unsentDataBuffer c2 = replicate 16384 1 \<and> dataSource c2 \<noteq> None)"
    by (simp add: newContents_def fullSource_def kDataBufferSize_def)
  from t [of "newContents [] (Some shortSource)" shortSource "replicate 100 1"]
  have 2: "\<exists>c'. dataToSend (newContents [] (Some shortSource)) = Some (False, c') \<and>
      unsentDataBuffer c' = replicate 100 1 \<and> dataSource c' = None \<and>
      hasMoreDataToSend c' \<and> \<not> hasMoreDataToSend (consume False 100 c') \<and>
      dataToSend (consume False 100 c') = Some (False, consume False 100 c')"
    by (simp add: newContents_def shortSource_def kDataBufferSize_def)
  from t [of "newContents [] (Some emptySource)" emptySource "[]"]
  have 3: "\<exists>c'. dataToSend (newContents [] (Some emptySource)) = Some (False, c') \<and>
      dataSource c' = None \<and> \<not> hasMoreDataToSend c'"
    by (simp add: newContents_def emptySource_def kDataBufferSize_def)
  from 1 2 3 show ?thesis by blast
qed


text \<open>
  Claim C3 as stated fails: a call that returns 100 bytes, a positive count, drops the
  source.
\<close>

theorem dataSource_positive_counterexample:
  "shortSource 0 kDataBufferSize = Wrote (replicate 100 1) \<and>
   length (replicate 100 (1 :: byte)) > 0 \<and>
   readFromDataSource (newContents [] (Some shortSource))
     = Some \<lparr>payload = [], unsentPayload = [], dataSource = None,
             dataBuffer = Some kDataBufferSize, unsentDataBuffer = replicate 100 1\<rparr>"
  by (simp add: readFromDataSource_def newContents_def shortSource_def kDataBufferSize_def)

section \<open>disconnected\<close>

text \<open>
  Claim C4, as amended. \<open>MessageOut::disconnected\<close> invokes the progress callback, with
  state \<open>Disconnected\<close>, exactly for a request that expects a reply. For a request sent
  with \<open>NoReply\<close> and for a message of any other type it returns before it calls
  anything.
\<close>

theorem disconnected_guarded:
  "disconnected m =
     (if type m = kRequestType \<and> \<not> noReply m then [Progress kDisconnected 0 0] else [])"
  by (simp add: disconnected_def Message_disconnected_def sendProgress_def)

theorem disconnected_guarded_witness:
  "disconnected (newMessageOut kRequestType [] None 1) = [Progress kDisconnected 0 0] \<and>
   disconnected (newMessageOut (kRequestType OR kNoReply) [] None 1) = []"
  using disconnected_guarded [of "newMessageOut kRequestType [] None 1"]
    disconnected_guarded [of "newMessageOut (kRequestType OR kNoReply) [] None 1"]
  by (simp add: newMessageOut_def type_def noReply_def hasFlag_def
      kNoReply_def kRequestType_def kTypeMask_def)

text \<open>
  Claim C4 as stated fails: a request with \<open>NoReply\<close> and a response get no callback.
\<close>

theorem disconnected_counterexample:
  "disconnected (newMessageOut kNoReply [] None 1) = [] \<and>
   disconnected (newMessageOut kResponseType [] None 1) = []"
  by (simp add: disconnected_def newMessageOut_def type_def noReply_def hasFlag_def
      kNoReply_def kResponseType_def kRequestType_def kTypeMask_def)

section \<open>The loopback WebSocket\<close>

text \<open>
  Claim C8. \<open>send\<close> adds the size of the message to \<open>_bufferedBytes\<close> and returns
  whether the new count is at most \<open>kSendBufferSize\<close>, which is 32768: it returns false
  exactly when the count after the addition exceeds 32 KiB. Where the addition does not
  overflow \<open>size_t\<close>, the new count is the old one plus the length of the message.
\<close>

theorem send_backpressure:
  "snd (send mockSend ws msg binary)
     = (bufferedBytes (fst (send mockSend ws msg binary)) \<le> kSendBufferSize) \<and>
   bufferedBytes (fst (send mockSend ws msg binary)) = bufferedBytes ws + of_nat (length msg) \<and>
   unat kSendBufferSize = 32768 \<and>
   (unat (bufferedBytes ws) + length msg < 2 ^ 64 \<longrightarrow>
      snd (send mockSend ws msg binary) = (unat (bufferedBytes ws) + length msg \<le> 32768))"
proof -
  have k: "unat kSendBufferSize = 32768" by (simp add: kSendBufferSize_def)
  have "unat (bufferedBytes ws + of_nat (length msg)) = unat (bufferedBytes ws) + length msg"
    if "unat (bufferedBytes ws) + length msg < 2 ^ 64"
    using that by (simp add: unat_word_ariths unat_of_nat)
  then show ?thesis
    using k by (auto simp: send_def Let_def word_le_nat_alt)
qed

theorem send_backpressure_witness:
  "snd (send (\<lambda>b m bin. b) \<lparr>base = (), bufferedBytes = 32765\<rparr> [1, 2, 3] True) \<and>
   \<not> snd (send (\<lambda>b m bin. b) \<lparr>base = (), bufferedBytes = 32766\<rparr> [1, 2, 3] True)"
  using send_backpressure [of "\<lambda>b m bin. b" "\<lparr>base = (), bufferedBytes = 32765\<rparr>" "[1, 2, 3]" True]
    send_backpressure [of "\<lambda>b m bin. b" "\<lparr>base = (), bufferedBytes = 32766\<rparr>" "[1, 2, 3]" True]
  by (simp add: kSendBufferSize_def)

text \<open>
  Claim C10. \<open>_ack\<close> does nothing on a socket that is not connected. On a connected one
  it subtracts \<open>msgSize\<close> from the buffered count and calls \<open>onWebSocketWriteable\<close>
  exactly when the count was above \<open>kSendBufferSize\<close> before the subtraction and is at
  or below it after; otherwise it makes no call.
\<close>

theorem ack_writeable:
  "ack_impl connected ws msgSize =
     (if connected (base ws)
      then (ws\<lparr>bufferedBytes := bufferedBytes ws - msgSize\<rparr>,
            if kSendBufferSize < bufferedBytes ws \<and> bufferedBytes ws - msgSize \<le> kSendBufferSize
            then [onWebSocketWriteable] else [])
      else (ws, []))"
  by (auto simp: ack_impl_def Let_def)

theorem ack_writeable_witness:
  "ack_impl (\<lambda>b. b) \<lparr>base = True, bufferedBytes = 32770\<rparr> 10
     = (\<lparr>base = True, bufferedBytes = 32760\<rparr>, [onWebSocketWriteable]) \<and>
   ack_impl (\<lambda>b. b) \<lparr>base = True, bufferedBytes = 40000\<rparr> 10
     = (\<lparr>base = True, bufferedBytes = 39990\<rparr>, []) \<and>
   ack_impl (\<lambda>b. b) \<lparr>base = True, bufferedBytes = 100\<rparr> 10
     = (\<lparr>base = True, bufferedBytes = 90\<rparr>, []) \<and>
   ack_impl (\<lambda>b. b) \<lparr>base = False, bufferedBytes = 32770\<rparr> 10
     = (\<lparr>base = False, bufferedBytes = 32770\<rparr>, [])"
  using ack_writeable [of "\<lambda>b. b" "\<lparr>base = True, bufferedBytes = 32770\<rparr>" 10]
    ack_writeable [of "\<lambda>b. b" "\<lparr>base = True, bufferedBytes = 40000\<rparr>" 10]
    ack_writeable [of "\<lambda>b. b" "\<lparr>base = True, bufferedBytes = 100\<rparr>" 10]
    ack_writeable [of "\<lambda>b. b" "\<lparr>base = False, bufferedBytes = 32770\<rparr>" 10]
  by (simp add: kSendBufferSize_def)

section \<open>The mailbox\<close>

text \<open>
  Claim C9, as amended. When a block of the queue throws an object derived from
  \<open>std::exception\<close>, the exception is caught in \<open>safelyCall\<close> and handed to
  \<open>caughtException\<close>, the dump of the current manifest (the one the block captured, with
  this execution recorded) goes to the log, \<open>afterEvent\<close> runs, and the queue goes on
  with the blocks behind it.
\<close>

theorem mailbox_catches_std_exception:
  "block w = Throws (StdException x) \<and> currentManifest w < length (manifests mb) \<longrightarrow>
     drainBlocks (w # ws) mb =
       drainBlocks ws
         (mb\<lparr>manifests := (manifests mb)[currentManifest w :=
                 addExecution (ranAt w) (methodName w) (manifests mb ! currentManifest w)],
             caughtExceptions := caughtExceptions mb @ [x],
             warnings := warnings mb @
               [dump (addExecution (ranAt w) (methodName w) (manifests mb ! currentManifest w))],
             afterEvents := Suc (afterEvents mb),
             eventCount := eventCount mb - 1,
             sCurrentManifest := None\<rparr>)"
  by (simp add: wrappedBlock_def safelyCall_def afterEvent_def Let_def)

lemma twoBlocks_queue:
  "queue (twoBlocks t) =
     [\<lparr>methodName = ''first'', block = Throws t, currentManifest = 0, ranAt = 2\<rparr>,
      \<lparr>methodName = ''second'', block = Returns, currentManifest = 1, ranAt = 3\<rparr>] \<and>
   length (manifests (twoBlocks t)) = 2 \<and> eventCount (twoBlocks t) = 2 \<and>
   caughtExceptions (twoBlocks t) = [] \<and> warnings (twoBlocks t) = [] \<and>
   afterEvents (twoBlocks t) = 0"
  by (simp add: twoBlocks_def enqueue_def newMailbox_def Let_def)

theorem mailbox_catches_std_exception_witness:
  "(\<exists>mb'. drain (twoBlocks (StdException ''boom'')) = Inr mb' \<and>
      caughtExceptions mb' = [''boom''] \<and> length (warnings mb') = 1 \<and>
      afterEvents mb' = 2 \<and> eventCount mb' = 0)"
proof -
  let ?mb = "(twoBlocks (StdException ''boom''))\<lparr>queue := []\<rparr>"
  let ?w = "\<lparr>methodName = ''first'', block = Throws (StdException ''boom''),
             currentManifest = 0, ranAt = 2\<rparr>"
  let ?v = "\<lparr>methodName = ''second'', block = Returns, currentManifest = 1, ranAt = 3\<rparr>"
  note q = twoBlocks_queue [of "StdException ''boom''"]
  have "drain (twoBlocks (StdException ''boom'')) = drainBlocks [?w, ?v] ?mb"
    using q by (simp add: drain_def)
  also have "\<dots> = drainBlocks [?v]
         (?mb\<lparr>manifests := (manifests ?mb)[currentManifest ?w :=
                 addExecution (ranAt ?w) (methodName ?w) (manifests ?mb ! currentManifest ?w)],
             caughtExceptions := caughtExceptions ?mb @ [''boom''],
             warnings := warnings ?mb @
               [dump (addExecution (ranAt ?w) (methodName ?w) (manifests ?mb ! currentManifest ?w))],
             afterEvents := Suc (afterEvents ?mb),
             eventCount := eventCount ?mb - 1,
             sCurrentManifest := None\<rparr>)"
    using mailbox_catches_std_exception [of ?w "''boom''" ?mb "[?v]"] q by simp
  finally show ?thesis
    using q by (simp add: wrappedBlock_def safelyCall_def afterEvent_def Let_def)
qed


text \<open>
  Claim C9 as stated fails for a thrown object that is not derived from
  \<open>std::exception\<close>: the handler does not match, the exception leaves the block, and the
  block behind it is not run.
\<close>

theorem mailbox_uncaught_counterexample:
  "drain (enqueue 1 3 ''second'' Returns (enqueue 0 2 ''first'' (Throws OtherObject) newMailbox))
     = Inl (Uncaught OtherObject)"
  using twoBlocks_queue [of OtherObject]
  by (simp add: drain_def twoBlocks_def wrappedBlock_def safelyCall_def Let_def)

end
